theory Spec2Isabelle
  imports Complex_Main "HOL-Library.Multiset" "HOL-Library.AList"
begin

section \<open>Numbers held in a column\<close>

text \<open>
  The program (project3.py) keeps its table in a pandas DataFrame whose numeric columns
  hold 64-bit floats. A cell is a finite number, one of the two infinities, or NaN
  (which pandas also uses for a missing value). Finite numbers are modelled as reals:
  rounding, overflow and the sign of zero are not modelled. The operations below are
  the elementwise operations of a numeric column, which never raise: a division by zero
  gives NaN or an infinity.
\<close>

datatype pyfloat = Fin real | PInf | NInf | NaN

fun fl_neg :: "pyfloat \<Rightarrow> pyfloat" where
  "fl_neg (Fin a) = Fin (- a)"
| "fl_neg PInf = NInf"
| "fl_neg NInf = PInf"
| "fl_neg NaN = NaN"

fun fl_sign :: "pyfloat \<Rightarrow> real" where
  "fl_sign (Fin a) = sgn a"
| "fl_sign PInf = 1"
| "fl_sign NInf = - 1"
| "fl_sign NaN = 0"

definition inf_of_sign :: "real \<Rightarrow> pyfloat" where
  "inf_of_sign s = (if 0 < s then PInf else if s < 0 then NInf else NaN)"

fun fl_add :: "pyfloat \<Rightarrow> pyfloat \<Rightarrow> pyfloat" where
  "fl_add (Fin a) (Fin b) = Fin (a + b)"
| "fl_add NaN y = NaN"
| "fl_add x NaN = NaN"
| "fl_add PInf NInf = NaN"
| "fl_add NInf PInf = NaN"
| "fl_add PInf y = PInf"
| "fl_add NInf y = NInf"
| "fl_add x PInf = PInf"
| "fl_add x NInf = NInf"

definition fl_sub :: "pyfloat \<Rightarrow> pyfloat \<Rightarrow> pyfloat" where
  "fl_sub x y = fl_add x (fl_neg y)"

fun fl_mul :: "pyfloat \<Rightarrow> pyfloat \<Rightarrow> pyfloat" where
  "fl_mul (Fin a) (Fin b) = Fin (a * b)"
| "fl_mul NaN y = NaN"
| "fl_mul x NaN = NaN"
| "fl_mul x y = inf_of_sign (fl_sign x * fl_sign y)"

text \<open>
  Division of two columns: \<open>0 / 0\<close> is NaN, a non-zero number over zero is an infinity
  of the sign of the numerator, a finite number over an infinity is zero, and an
  infinity over an infinity is NaN.
\<close>

fun fl_div :: "pyfloat \<Rightarrow> pyfloat \<Rightarrow> pyfloat" where
  "fl_div (Fin a) (Fin b) = (if b = 0 then inf_of_sign (sgn a) else Fin (a / b))"
| "fl_div NaN y = NaN"
| "fl_div x NaN = NaN"
| "fl_div (Fin a) y = Fin 0"
| "fl_div x (Fin b) = inf_of_sign (fl_sign x * (if b < 0 then - 1 else 1))"
| "fl_div x y = NaN"

text \<open>Python's \<open><\<close> on floats: every comparison with NaN is false.\<close>

fun fl_less :: "pyfloat \<Rightarrow> pyfloat \<Rightarrow> bool" where
  "fl_less (Fin a) (Fin b) = (a < b)"
| "fl_less NaN y = False"
| "fl_less x NaN = False"
| "fl_less x NInf = False"
| "fl_less NInf y = True"
| "fl_less PInf y = False"
| "fl_less x PInf = True"

definition fl_greater :: "pyfloat \<Rightarrow> pyfloat \<Rightarrow> bool" where
  "fl_greater x y = fl_less y x"

section \<open>Reductions of a numeric column\<close>

text \<open>
  \<open>Series.min()\<close>, \<open>Series.max()\<close> and \<open>Series.mean()\<close> skip NaN cells (pandas'
  default \<open>skipna=True\<close>) and give NaN when no cell is left.
\<close>

definition notna :: "pyfloat \<Rightarrow> bool" where
  "notna v = (v \<noteq> NaN)"

definition fl_min2 :: "pyfloat \<Rightarrow> pyfloat \<Rightarrow> pyfloat" where
  "fl_min2 v acc = (if fl_less v acc then v else acc)"

definition fl_max2 :: "pyfloat \<Rightarrow> pyfloat \<Rightarrow> pyfloat" where
  "fl_max2 v acc = (if fl_less acc v then v else acc)"

definition min_series :: "pyfloat list \<Rightarrow> pyfloat" where
  "min_series s = (case filter notna s of [] \<Rightarrow> NaN | v # vs \<Rightarrow> fold fl_min2 vs v)"

definition max_series :: "pyfloat list \<Rightarrow> pyfloat" where
  "max_series s = (case filter notna s of [] \<Rightarrow> NaN | v # vs \<Rightarrow> fold fl_max2 vs v)"

definition sum_series :: "pyfloat list \<Rightarrow> pyfloat" where
  "sum_series s = fold (\<lambda>v acc. fl_add acc v) s (Fin 0)"

definition mean_series :: "pyfloat list \<Rightarrow> pyfloat" where
  "mean_series s =
     (case filter notna s of
        [] \<Rightarrow> NaN
      | v # vs \<Rightarrow> fl_div (sum_series (v # vs)) (Fin (real (length (v # vs)))))"

section \<open>Min-max normalisation (project3.py, lines 33 to 35)\<close>

text \<open>
  Lines 33 and 34 compute \<open>(col - col.min()) / (col.max() - col.min()) * 100\<close> for the
  speed and the transit column; line 35 computes
  \<open>(col.max() - col) / (col.max() - col.min()) * 100\<close> for the accident column. The
  source writes the expressions inline; the two definitions below are those
  right-hand sides, with the scalar broadcast over the column.
\<close>

definition normalize_ascending :: "pyfloat list \<Rightarrow> pyfloat list" where
  "normalize_ascending s =
     map (\<lambda>v. fl_mul (fl_div (fl_sub v (min_series s))
                              (fl_sub (max_series s) (min_series s))) (Fin 100)) s"

definition normalize_descending :: "pyfloat list \<Rightarrow> pyfloat list" where
  "normalize_descending s =
     map (\<lambda>v. fl_mul (fl_div (fl_sub (max_series s) v)
                              (fl_sub (max_series s) (min_series s))) (Fin 100)) s"

section \<open>The table\<close>

text \<open>
  Column labels. The source writes them as Korean string literals; each constructor
  stands for one literal, named here by its meaning:
  \<^item> \<open>Region\<close>: the region name column (line 60);
  \<^item> \<open>Speed\<close>: average travel speed (line 28);
  \<^item> \<open>Transit\<close>: number of public transit routes (line 29);
  \<^item> \<open>Accidents\<close>: traffic accidents per 100 000 people (line 30);
  \<^item> \<open>NormSpeed\<close>, \<open>NormTransit\<close>, \<open>NormAccidents\<close>: the three normalised columns
    assigned at lines 33, 34 and 35;
  \<^item> \<open>Score\<close>: the traffic environment score assigned at line 37;
  \<^item> \<open>Rank\<close>: the rank column inserted at line 62;
  \<^item> \<open>Other\<close>: any other column of the uploaded file.
\<close>

datatype colname =
  Region | Speed | Transit | Accidents
  | NormSpeed | NormTransit | NormAccidents
  | Score | Rank | Other string

text \<open>A cell read from the CSV file is a number or a piece of text.\<close>

datatype cell = Num pyfloat | Str string

text \<open>
  A DataFrame: the length of its index and its columns in order. Every column of a
  DataFrame has the length of the index; theorems that need it assume it of the columns
  they read.
\<close>

record frame =
  nrows :: nat
  columns :: "(colname \<times> cell list) list"

datatype py_error = KeyError colname | TypeError | IndexError | ValueError

text \<open>\<open>df.empty\<close>: true when either axis has length zero.\<close>

definition df_empty :: "frame \<Rightarrow> bool" where
  "df_empty df = (nrows df = 0 \<or> columns df = [])"

text \<open>\<open>df[c]\<close> raises KeyError for a label that is not a column.\<close>

definition getitem :: "frame \<Rightarrow> colname \<Rightarrow> py_error + cell list" where
  "getitem df c = (case map_of (columns df) c of None \<Rightarrow> Inl (KeyError c) | Some s \<Rightarrow> Inr s)"

text \<open>\<open>df[c] = s\<close> replaces the column when the label exists and appends it otherwise.\<close>

definition setitem :: "frame \<Rightarrow> colname \<Rightarrow> cell list \<Rightarrow> frame" where
  "setitem df c s = df\<lparr>columns := AList.update c s (columns df)\<rparr>"

text \<open>
  Arithmetic on a column: a column that holds text raises TypeError
  (\<open>unsupported operand type(s) for -: 'str' and 'str'\<close>); a column of numbers, also an
  empty one, is taken as it is.
\<close>

fun numeric :: "cell list \<Rightarrow> py_error + pyfloat list" where
  "numeric [] = Inr []"
| "numeric (Str t # cs) = Inl TypeError"
| "numeric (Num v # cs) = (case numeric cs of Inl e \<Rightarrow> Inl e | Inr vs \<Rightarrow> Inr (v # vs))"

definition getnum :: "frame \<Rightarrow> colname \<Rightarrow> py_error + pyfloat list" where
  "getnum df c = (case getitem df c of Inl e \<Rightarrow> Inl e | Inr s \<Rightarrow> numeric s)"

section \<open>calculate_traffic_score (project3.py, lines 26 to 43)\<close>

text \<open>
  The weight table of lines 27 to 31. The literals 0.4 and 0.3 are taken as the
  rationals they denote.
\<close>

definition weights :: "colname \<rightharpoonup> real" where
  "weights = [Speed \<mapsto> 4 / 10, Transit \<mapsto> 3 / 10, Accidents \<mapsto> 3 / 10]"

text \<open>
  Lines 37 to 41: the three normalised columns, each times its weight, added row by row
  (\<open>a * w1 + b * w2 + c * w3\<close>, grouped from the left).
\<close>

definition weighted_sum :: "pyfloat list \<Rightarrow> pyfloat list \<Rightarrow> pyfloat list \<Rightarrow> pyfloat list" where
  "weighted_sum a b c =
     map (\<lambda>(x, y, z).
            fl_add (fl_add (fl_mul x (Fin (the (weights Speed))))
                           (fl_mul y (Fin (the (weights Transit)))))
                   (fl_mul z (Fin (the (weights Accidents)))))
         (zip a (zip b c))"

text \<open>
  The function reads each raw column (KeyError when it is missing, TypeError when it
  holds text), assigns the normalised column, and at the end assigns the score. The
  frame is mutated in place in the source; the model returns the new frame.
\<close>

definition calculate_traffic_score :: "frame \<Rightarrow> py_error + frame" where
  "calculate_traffic_score df =
     (case getnum df Speed of Inl e \<Rightarrow> Inl e | Inr sp \<Rightarrow>
      let df1 = setitem df NormSpeed (map Num (normalize_ascending sp)) in
      (case getnum df1 Transit of Inl e \<Rightarrow> Inl e | Inr tr \<Rightarrow>
       let df2 = setitem df1 NormTransit (map Num (normalize_ascending tr)) in
       (case getnum df2 Accidents of Inl e \<Rightarrow> Inl e | Inr ac \<Rightarrow>
        let df3 = setitem df2 NormAccidents (map Num (normalize_descending ac)) in
        (case getnum df3 NormSpeed of Inl e \<Rightarrow> Inl e | Inr ns \<Rightarrow>
         (case getnum df3 NormTransit of Inl e \<Rightarrow> Inl e | Inr nt \<Rightarrow>
          (case getnum df3 NormAccidents of Inl e \<Rightarrow> Inl e | Inr na \<Rightarrow>
           Inr (setitem df3 Score (map Num (weighted_sum ns nt na)))))))))"

section \<open>The ranked table (project3.py, lines 60 to 62)\<close>

text \<open>\<open>df[[c1, ..., cn]]\<close>: the listed columns in the listed order; KeyError when one is missing.\<close>

fun select_columns :: "frame \<Rightarrow> colname list \<Rightarrow> py_error + (colname \<times> cell list) list" where
  "select_columns df [] = Inr []"
| "select_columns df (c # cs) =
     (case getitem df c of Inl e \<Rightarrow> Inl e | Inr s \<Rightarrow>
      (case select_columns df cs of Inl e \<Rightarrow> Inl e | Inr r \<Rightarrow> Inr ((c, s) # r)))"



text \<open>The rows taken in the order \<open>idx\<close>; \<open>reset_index(drop=True)\<close> renumbers them.\<close>

definition take_rows :: "nat list \<Rightarrow> frame \<Rightarrow> frame" where
  "take_rows idx df =
     \<lparr>nrows = length idx, columns = map (\<lambda>(c, s). (c, map (\<lambda>i. s ! i) idx)) (columns df)\<rparr>"

definition sort_values_desc :: "nat list \<Rightarrow> colname \<Rightarrow> frame \<Rightarrow> py_error + frame" where
  "sort_values_desc idx by_col df =
     (case getitem df by_col of Inl e \<Rightarrow> Inl e | Inr keys \<Rightarrow> Inr (take_rows idx df))"

text \<open>
  \<open>df.insert(loc, c, s)\<close> raises ValueError when the label already exists and IndexError
  when \<open>loc\<close> is beyond the last column.
\<close>

definition insert_column :: "frame \<Rightarrow> nat \<Rightarrow> colname \<Rightarrow> cell list \<Rightarrow> py_error + frame" where
  "insert_column df loc c s =
     (if map_of (columns df) c \<noteq> None then Inl ValueError
      else if length (columns df) < loc then Inl IndexError
      else Inr (df\<lparr>columns := take loc (columns df) @ [(c, s)] @ drop loc (columns df)\<rparr>))"

text \<open>\<open>np.arange(1, n + 1)\<close>: the ranks 1 to n.\<close>

definition arange_ranks :: "nat \<Rightarrow> cell list" where
  "arange_ranks n = map (\<lambda>k. Num (Fin (real k))) [1..<n + 1]"

definition display_df :: "nat list \<Rightarrow> frame \<Rightarrow> py_error + frame" where
  "display_df idx df =
     (case select_columns df [Region, Speed, Transit, Accidents, Score] of
        Inl e \<Rightarrow> Inl e
      | Inr cols \<Rightarrow>
        (case sort_values_desc idx Score \<lparr>nrows = nrows df, columns = cols\<rparr> of
           Inl e \<Rightarrow> Inl e
         | Inr sorted_df \<Rightarrow> insert_column sorted_df 1 Rank (arange_ranks (nrows sorted_df))))"

section \<open>The comparison with the average (project3.py, lines 97 to 118)\<close>

text \<open>
  The first option of the select box (line 97), a two-syllable Korean word for
  "choose", as its UTF-8 bytes.
\<close>

definition placeholder :: string where
  "placeholder = [CHR 0xEC, CHR 0x84, CHR 0xA0, CHR 0xED, CHR 0x83, CHR 0x9D]"

text \<open>Python's \<open>==\<close> on two cells: NaN equals nothing, text never equals a number.\<close>

fun py_eq :: "cell \<Rightarrow> cell \<Rightarrow> bool" where
  "py_eq (Str a) (Str b) = (a = b)"
| "py_eq (Num x) (Num y) = (x = y \<and> x \<noteq> NaN)"
| "py_eq (Str a) (Num y) = False"
| "py_eq (Num x) (Str b) = False"

text \<open>
  Line 101, \<open>df[df[Region] == user_location].iloc[0]\<close>: the first row whose region
  equals the selection; \<open>iloc[0]\<close> raises IndexError when no row does.
\<close>

definition first_match :: "cell list \<Rightarrow> cell \<Rightarrow> py_error + nat" where
  "first_match names v =
     (case filter (\<lambda>i. py_eq (names ! i) v) [0..<length names] of
        [] \<Rightarrow> Inl IndexError
      | i # rest \<Rightarrow> Inr i)"

text \<open>
  Line 102, \<open>df.mean(numeric_only=True)\<close>: the mean of every numeric column; looking a
  label up in it raises KeyError when the frame has no numeric column of that label.
\<close>

definition mean_numeric_only :: "frame \<Rightarrow> colname \<Rightarrow> py_error + pyfloat" where
  "mean_numeric_only df c =
     (case getnum df c of Inl e \<Rightarrow> Inl (KeyError c) | Inr vs \<Rightarrow> Inr (mean_series vs))"

text \<open>\<open>user_data[c]\<close>: the cell of the selected row \<open>i\<close> in column \<open>c\<close>.\<close>

definition row_cell :: "frame \<Rightarrow> nat \<Rightarrow> colname \<Rightarrow> py_error + cell" where
  "row_cell df i c = (case getitem df c of Inl e \<Rightarrow> Inl e | Inr s \<Rightarrow> Inr (s ! i))"

text \<open>The format \<open>:.2f\<close> of line 105 takes a number; on text it raises ValueError.\<close>

fun format_2f :: "cell \<Rightarrow> py_error + pyfloat" where
  "format_2f (Num v) = Inr v"
| "format_2f (Str t) = Inl ValueError"

text \<open>
  Line 116: the three words of the report, in the order of the source's conditional
  expression: "is higher" when \<open>diff > 0\<close>, "is lower" when \<open>diff < 0\<close>, "is the same"
  otherwise.
\<close>

datatype label = Higher | Lower | Same

definition direction :: "pyfloat \<Rightarrow> label" where
  "direction diff =
     (if fl_greater diff (Fin 0) then Higher else if fl_less diff (Fin 0) then Lower else Same)"

record comparison =
  metric :: colname
  user_val :: pyfloat
  avg_val :: pyfloat
  diff :: pyfloat
  word :: label

text \<open>
  Lines 113 to 116 for one metric: the cell of the row, the mean of the column, their
  difference (TypeError when the cell is text) and the word.
\<close>

definition compare_metric :: "frame \<Rightarrow> nat \<Rightarrow> colname \<Rightarrow> py_error + comparison" where
  "compare_metric df i c =
     (case row_cell df i c of Inl e \<Rightarrow> Inl e | Inr u \<Rightarrow>
      (case mean_numeric_only df c of Inl e \<Rightarrow> Inl e | Inr m \<Rightarrow>
       (case u of
          Str t \<Rightarrow> Inl TypeError
        | Num v \<Rightarrow>
            Inr \<lparr>metric = c, user_val = v, avg_val = m, diff = fl_sub v m,
                 word = direction (fl_sub v m)\<rparr>)))"

fun compare_metrics :: "frame \<Rightarrow> nat \<Rightarrow> colname list \<Rightarrow> py_error + comparison list" where
  "compare_metrics df i [] = Inr []"
| "compare_metrics df i (c # cs) =
     (case compare_metric df i c of Inl e \<Rightarrow> Inl e | Inr x \<Rightarrow>
      (case compare_metrics df i cs of Inl e \<Rightarrow> Inl e | Inr xs \<Rightarrow> Inr (x # xs)))"

text \<open>
  Lines 101 to 118: the selected row, the score line (the row's score and the mean
  score, line 105) and one line for each of the three raw metrics.
\<close>

definition compare_block :: "frame \<Rightarrow> cell \<Rightarrow> py_error + (pyfloat \<times> pyfloat) \<times> comparison list" where
  "compare_block df user_location =
     (case getitem df Region of Inl e \<Rightarrow> Inl e | Inr names \<Rightarrow>
      (case first_match names user_location of Inl e \<Rightarrow> Inl e | Inr i \<Rightarrow>
       (case row_cell df i Score of Inl e \<Rightarrow> Inl e | Inr score_cell \<Rightarrow>
        (case format_2f score_cell of Inl e \<Rightarrow> Inl e | Inr us \<Rightarrow>
         (case mean_numeric_only df Score of Inl e \<Rightarrow> Inl e | Inr ms \<Rightarrow>
          (case compare_metrics df i [Speed, Transit, Accidents] of
             Inl e \<Rightarrow> Inl e
           | Inr lines \<Rightarrow> Inr ((us, ms), lines)))))))"

section \<open>load_and_preprocess_data (project3.py, lines 12 to 23)\<close>

text \<open>
  What the upload widget and \<open>pd.read_csv\<close> hand to the function: no file, a file that
  \<open>read_csv\<close> parsed into a frame, or a file on which \<open>read_csv\<close> raised. The function
  returns the parsed frame, and the empty frame \<open>pd.DataFrame()\<close> in the two other
  cases (the exception is caught at line 18).
\<close>

datatype upload = NoFile | Parsed frame | Unreadable

definition empty_frame :: frame where
  "empty_frame = \<lparr>nrows = 0, columns = []\<rparr>"

definition load_and_preprocess_data :: "upload \<Rightarrow> frame" where
  "load_and_preprocess_data uploaded_file =
     (case uploaded_file of
        NoFile \<Rightarrow> empty_frame
      | Parsed df \<Rightarrow> df
      | Unreadable \<Rightarrow> empty_frame)"

section \<open>The script (project3.py, lines 54 to 121)\<close>

text \<open>
  What one run of the script shows: the prompt to upload a file (line 121), or the
  ranked table with, when a region is selected, the comparison block. The charts of
  lines 66 to 91 are drawn by the plotting library and are left out. An exception
  that the source does not catch ends the run: it is the \<open>Inl\<close> result.
  \<open>df\<close> is the frame that \<open>load_and_preprocess_data\<close> returned (line 54), \<open>idx\<close> the
  row order picked by \<open>sort_values\<close>, \<open>user_location\<close> the option returned by the
  select box.
\<close>

datatype view =
  EmptyPrompt
  | Dashboard frame "((pyfloat \<times> pyfloat) \<times> comparison list) option"

definition script :: "frame \<Rightarrow> nat list \<Rightarrow> cell \<Rightarrow> py_error + view" where
  "script df idx user_location =
     (if df_empty df then Inr EmptyPrompt
      else
        (case calculate_traffic_score df of Inl e \<Rightarrow> Inl e | Inr scored \<Rightarrow>
         (case display_df idx scored of Inl e \<Rightarrow> Inl e | Inr table \<Rightarrow>
          (case getitem scored Region of Inl e \<Rightarrow> Inl e | Inr names \<Rightarrow>
           if \<not> py_eq user_location (Str placeholder) then
             (case compare_block scored user_location of
                Inl e \<Rightarrow> Inl e
              | Inr block \<Rightarrow> Inr (Dashboard table (Some block)))
           else Inr (Dashboard table None)))))"

text \<open>Line 54 and the rest of the script: the frame comes from the uploaded file.\<close>

definition run :: "upload \<Rightarrow> nat list \<Rightarrow> cell \<Rightarrow> py_error + view" where
  "run uploaded_file idx user_location =
     script (load_and_preprocess_data uploaded_file) idx user_location"

section \<open>The arithmetic of the machine\<close>

text \<open>
  The definitions above compute with exact reals. This section gives the arithmetic of
  lines 33 to 41 as pandas runs it: a numeric column read from a CSV file has dtype
  \<open>int64\<close> (every cell an integer) or \<open>float64\<close>. Subtraction of \<open>int64\<close> values wraps
  around modulo \<open>2^64\<close>; the division converts both operands to \<open>float64\<close>; every
  \<open>float64\<close> operation rounds its exact result to the nearest double, ties to even, and
  a result of magnitude \<open>2^1024\<close> or more becomes an infinity. The sign of zero is not
  modelled.
\<close>

text \<open>Rounding a real to the nearest integer, ties to the even one.\<close>

definition round_half_even :: "real \<Rightarrow> int" where
  "round_half_even x =
     (let f = \<lfloor>x\<rfloor>; r = x - of_int f
      in if r < 1 / 2 then f else if 1 / 2 < r then f + 1 else if even f then f else f + 1)"

text \<open>
  The exponent of the last place of a double near \<open>x\<close>: 52 binary places below the
  leading bit of \<open>x\<close>, and never below \<open>-1074\<close> (the subnormal numbers).
\<close>

definition exponent64 :: "real \<Rightarrow> int" where
  "exponent64 x = max (\<lfloor>log 2 \<bar>x\<bar>\<rfloor> - 52) (- 1074)"

text \<open>The multiple of \<open>2 ^ exponent64 x\<close> nearest to \<open>x\<close>.\<close>

definition ideal64 :: "real \<Rightarrow> real" where
  "ideal64 x = of_int (round_half_even (x / 2 powi exponent64 x)) * 2 powi exponent64 x"

text \<open>The double that a \<open>float64\<close> operation returns for the exact result \<open>x\<close>.\<close>

definition rnd64 :: "real \<Rightarrow> pyfloat" where
  "rnd64 x =
     (if x = 0 then Fin 0
      else if 2 ^ 1024 \<le> \<bar>ideal64 x\<bar> then (if 0 < x then PInf else NInf)
      else Fin (ideal64 x))"

text \<open>
  The four \<open>float64\<close> operations: on two finite numbers the rounded exact result, on
  an infinity or NaN as the exact operations above.
\<close>

fun f64_add :: "pyfloat \<Rightarrow> pyfloat \<Rightarrow> pyfloat" where
  "f64_add (Fin a) (Fin b) = rnd64 (a + b)"
| "f64_add x y = fl_add x y"

definition f64_sub :: "pyfloat \<Rightarrow> pyfloat \<Rightarrow> pyfloat" where
  "f64_sub x y = f64_add x (fl_neg y)"

fun f64_mul :: "pyfloat \<Rightarrow> pyfloat \<Rightarrow> pyfloat" where
  "f64_mul (Fin a) (Fin b) = rnd64 (a * b)"
| "f64_mul x y = fl_mul x y"

fun f64_div :: "pyfloat \<Rightarrow> pyfloat \<Rightarrow> pyfloat" where
  "f64_div (Fin a) (Fin b) = (if b = 0 then inf_of_sign (sgn a) else rnd64 (a / b))"
| "f64_div x y = fl_div x y"

text \<open>\<open>int64\<close> arithmetic wraps around; the division converts an \<open>int64\<close> to \<open>float64\<close>.\<close>

definition wrap64 :: "int \<Rightarrow> int" where
  "wrap64 k = (k + 2 ^ 63) mod 2 ^ 64 - 2 ^ 63"

definition int64_to_float :: "int \<Rightarrow> pyfloat" where
  "int64_to_float k = rnd64 (of_int k)"

text \<open>A numeric column with its dtype.\<close>

datatype series = Int64 "int list" | Float64 "pyfloat list"

text \<open>
  Lines 33 and 34, \<open>(col - col.min()) / (col.max() - col.min()) * 100\<close>, and line 35,
  \<open>(col.max() - col) / (col.max() - col.min()) * 100\<close>. On a \<open>float64\<close> column the
  minimum and maximum skip NaN and the three operations are \<open>float64\<close> operations; on
  an \<open>int64\<close> column the two differences are \<open>int64\<close> subtractions, the division
  converts them, and the product is a \<open>float64\<close> operation.
\<close>

fun normalize_ascending64 :: "series \<Rightarrow> pyfloat list" where
  "normalize_ascending64 (Float64 vs) =
     map (\<lambda>v. f64_mul (f64_div (f64_sub v (min_series vs))
                               (f64_sub (max_series vs) (min_series vs))) (Fin 100)) vs"
| "normalize_ascending64 (Int64 []) = []"
| "normalize_ascending64 (Int64 (k # ks)) =
     map (\<lambda>v. f64_mul (f64_div (int64_to_float (wrap64 (v - fold min ks k)))
                               (int64_to_float (wrap64 (fold max ks k - fold min ks k))))
                      (Fin 100)) (k # ks)"

fun normalize_descending64 :: "series \<Rightarrow> pyfloat list" where
  "normalize_descending64 (Float64 vs) =
     map (\<lambda>v. f64_mul (f64_div (f64_sub (max_series vs) v)
                               (f64_sub (max_series vs) (min_series vs))) (Fin 100)) vs"
| "normalize_descending64 (Int64 []) = []"
| "normalize_descending64 (Int64 (k # ks)) =
     map (\<lambda>v. f64_mul (f64_div (int64_to_float (wrap64 (fold max ks k - v)))
                               (int64_to_float (wrap64 (fold max ks k - fold min ks k))))
                      (Fin 100)) (k # ks)"

text \<open>
  The weight table of lines 27 to 31 as Python holds it: the doubles nearest to 0.4
  and 0.3.
\<close>

definition weights64 :: "colname \<rightharpoonup> real" where
  "weights64 =
     [Speed \<mapsto> 3602879701896397 / 2 ^ 53,
      Transit \<mapsto> 5404319552844595 / 2 ^ 54,
      Accidents \<mapsto> 5404319552844595 / 2 ^ 54]"

text \<open>Lines 37 to 41 in \<open>float64\<close> operations.\<close>

definition weighted_sum64 :: "pyfloat list \<Rightarrow> pyfloat list \<Rightarrow> pyfloat list \<Rightarrow> pyfloat list" where
  "weighted_sum64 a b c =
     map (\<lambda>(x, y, z).
            f64_add (f64_add (f64_mul x (Fin (the (weights64 Speed))))
                             (f64_mul y (Fin (the (weights64 Transit)))))
                    (f64_mul z (Fin (the (weights64 Accidents)))))
         (zip a (zip b c))"

text \<open>
  The score column that lines 33 to 41 compute from the three raw columns (speed,
  transit, accidents).
\<close>

definition traffic_score64 :: "series \<Rightarrow> series \<Rightarrow> series \<Rightarrow> pyfloat list" where
  "traffic_score64 sp tr ac =
     weighted_sum64 (normalize_ascending64 sp) (normalize_ascending64 tr)
       (normalize_descending64 ac)"

section \<open>Predicates of the statements\<close>

text \<open>A cell is a finite number between 0 and 100.\<close>

definition in_0_100 :: "pyfloat \<Rightarrow> bool" where
  "in_0_100 v = (case v of Fin r \<Rightarrow> 0 \<le> r \<and> r \<le> 100 | PInf \<Rightarrow> False | NInf \<Rightarrow> False | NaN \<Rightarrow> False)"

text \<open>The column \<open>c\<close> of the frame that \<open>calculate_traffic_score\<close> returns.\<close>

definition scored_column :: "frame \<Rightarrow> colname \<Rightarrow> py_error + cell list" where
  "scored_column df c =
     (case calculate_traffic_score df of Inl e \<Rightarrow> Inl e | Inr scored \<Rightarrow> getitem scored c)"

text \<open>
  The comparison block computed on the frame that \<open>calculate_traffic_score\<close> returns
  (lines 57 and 101 to 118 of the script).
\<close>

definition scored_comparison ::
  "frame \<Rightarrow> cell \<Rightarrow> py_error + (pyfloat \<times> pyfloat) \<times> comparison list" where
  "scored_comparison df user_location =
     (case calculate_traffic_score df of
        Inl e \<Rightarrow> Inl e
      | Inr scored \<Rightarrow> compare_block scored user_location)"

text \<open>
  A line of the comparison block carries the difference of its two values, and its word
  says "higher" exactly when the difference is above zero, "lower" exactly when it is
  below zero and "same" exactly when it is zero.
\<close>

definition label_matches_sign :: "comparison \<Rightarrow> bool" where
  "label_matches_sign c =
     (diff c = fl_sub (user_val c) (avg_val c)
      \<and> (word c = Higher) = fl_greater (diff c) (Fin 0)
      \<and> (word c = Lower) = fl_less (diff c) (Fin 0)
      \<and> (word c = Same) = (diff c = Fin 0))"

text \<open>A required column is missing, or holds a piece of text in some row.\<close>

definition missing :: "frame \<Rightarrow> colname \<Rightarrow> bool" where
  "missing df c = (map_of (columns df) c = None)"

fun is_text :: "cell \<Rightarrow> bool" where
  "is_text (Str t) = True"
| "is_text (Num v) = False"

definition has_text :: "frame \<Rightarrow> colname \<Rightarrow> bool" where
  "has_text df c = (case map_of (columns df) c of None \<Rightarrow> False | Some s \<Rightarrow> list_ex is_text s)"



text \<open>A real number is a double: rounding leaves it as it is.\<close>

definition is_double :: "real \<Rightarrow> bool" where
  "is_double r = (rnd64 r = Fin r)"

text \<open>An integer is in the range of \<open>int64\<close>.\<close>

definition is_int64 :: "int \<Rightarrow> bool" where
  "is_int64 k = (- (2 ^ 63) \<le> k \<and> k < 2 ^ 63)"

text \<open>
  The column \<open>s\<close> holds the finite numbers \<open>rs\<close>, each a value of the dtype of the
  column.
\<close>

fun holds :: "series \<Rightarrow> real list \<Rightarrow> bool" where
  "holds (Float64 vs) rs = (vs = map Fin rs \<and> list_all is_double rs)"
| "holds (Int64 ks) rs = (rs = map of_int ks \<and> list_all is_int64 ks)"

text \<open>
  The difference \<open>col.max() - col.min()\<close> is computed without overflow: it is finite
  on a \<open>float64\<close> column and does not wrap around on an \<open>int64\<close> column.
\<close>

fun no_overflow :: "series \<Rightarrow> bool" where
  "no_overflow (Float64 vs) =
     (case f64_sub (max_series vs) (min_series vs) of
        Fin d \<Rightarrow> True | PInf \<Rightarrow> False | NInf \<Rightarrow> False | NaN \<Rightarrow> False)"
| "no_overflow (Int64 []) = True"
| "no_overflow (Int64 (k # ks)) = (fold max ks k - fold min ks k < 2 ^ 63)"

text \<open>A cell is not below another one: both are numbers and the first is not the smaller.\<close>

definition fl_ge :: "pyfloat \<Rightarrow> pyfloat \<Rightarrow> bool" where
  "fl_ge x y = (x \<noteq> NaN \<and> y \<noteq> NaN \<and> \<not> fl_less x y)"

section \<open>Example tables\<close>

text \<open>Two regions that differ in every metric: A (30, 5, 10) and B (60, 15, 2).\<close>

definition two_regions :: frame where
  "two_regions =
     \<lparr>nrows = 2,
      columns = [(Region, [Str ''A'', Str ''B'']),
                 (Speed, [Num (Fin 30), Num (Fin 60)]),
                 (Transit, [Num (Fin 5), Num (Fin 15)]),
                 (Accidents, [Num (Fin 10), Num (Fin 2)])]\<rparr>"

text \<open>Two regions with the same speed: A (50, 5, 10) and B (50, 15, 2).\<close>

definition same_speed :: frame where
  "same_speed =
     \<lparr>nrows = 2,
      columns = [(Region, [Str ''A'', Str ''B'']),
                 (Speed, [Num (Fin 50), Num (Fin 50)]),
                 (Transit, [Num (Fin 5), Num (Fin 15)]),
                 (Accidents, [Num (Fin 10), Num (Fin 2)])]\<rparr>"

text \<open>A file with the header line only: the four columns and no row.\<close>

definition header_only :: frame where
  "header_only =
     \<lparr>nrows = 0,
      columns = [(Region, []), (Speed, []), (Transit, []), (Accidents, [])]\<rparr>"


text \<open>The table of two regions without its transit column.\<close>

definition no_transit :: frame where
  "no_transit =
     \<lparr>nrows = 2,
      columns = [(Region, [Str ''A'', Str ''B'']),
                 (Speed, [Num (Fin 30), Num (Fin 60)]),
                 (Accidents, [Num (Fin 10), Num (Fin 2)])]\<rparr>"

text \<open>The table of two regions with a word in place of the speed of B.\<close>

definition text_speed :: frame where
  "text_speed =
     \<lparr>nrows = 2,
      columns = [(Region, [Str ''A'', Str ''B'']),
                 (Speed, [Str ''30'', Str ''fast'']),
                 (Transit, [Num (Fin 5), Num (Fin 15)]),
                 (Accidents, [Num (Fin 10), Num (Fin 2)])]\<rparr>"

text \<open>
  Three rows of which the first and the last carry the same region name: A (30, 5, 10),
  B (60, 15, 2) and A (45, 10, 6).
\<close>

definition duplicate_names :: frame where
  "duplicate_names =
     \<lparr>nrows = 3,
      columns = [(Region, [Str ''A'', Str ''B'', Str ''A'']),
                 (Speed, [Num (Fin 30), Num (Fin 60), Num (Fin 45)]),
                 (Transit, [Num (Fin 5), Num (Fin 15), Num (Fin 10)]),
                 (Accidents, [Num (Fin 10), Num (Fin 2), Num (Fin 6)])]\<rparr>"

section \<open>Facts about columns of finite numbers\<close>

lemma filter_notna_Fin: "filter notna (map Fin rs) = map Fin rs"
  by (induction rs) (simp_all add: notna_def)

lemma fold_min2_Fin: "fold fl_min2 (map Fin rs) (Fin a) = Fin (fold min rs a)"
  by (induction rs arbitrary: a) (auto simp: fl_min2_def min_def)

lemma fold_max2_Fin: "fold fl_max2 (map Fin rs) (Fin a) = Fin (fold max rs a)"
  by (induction rs arbitrary: a) (auto simp: fl_max2_def max_def)

lemma min_series_Fin: "rs \<noteq> [] \<Longrightarrow> min_series (map Fin rs) = Fin (Min (set rs))"
  by (cases rs) (simp_all add: min_series_def filter_notna_Fin notna_def fold_min2_Fin
      Min.set_eq_fold del: set_simps)

lemma max_series_Fin: "rs \<noteq> [] \<Longrightarrow> max_series (map Fin rs) = Fin (Max (set rs))"
  by (cases rs) (simp_all add: max_series_def filter_notna_Fin notna_def fold_max2_Fin
      Max.set_eq_fold del: set_simps)

lemma Min_le_Max_list: "rs \<noteq> [] \<Longrightarrow> Min (set rs) \<le> Max (set (rs :: real list))"
proof -
  assume "rs \<noteq> []"
  then have "hd rs \<in> set rs" by simp
  then have "Min (set rs) \<le> hd rs" "hd rs \<le> Max (set rs)" by simp_all
  then show ?thesis by linarith
qed


lemma degenerate_Fin:
  assumes "max_series (map Fin rs) = min_series (map Fin rs)" and "r \<in> set rs"
  shows "r = Min (set rs) \<and> r = Max (set rs)"
proof -
  have ne: "rs \<noteq> []" using assms(2) by auto
  then have eq: "Max (set rs) = Min (set rs)"
    using assms(1) by (simp add: min_series_Fin max_series_Fin)
  have "Min (set rs) \<le> r" "r \<le> Max (set rs)"
    using assms(2) by simp_all
  then show ?thesis using eq by simp
qed






section \<open>Facts about frames\<close>

lemma numeric_map_Num: "numeric (map Num vs) = Inr vs"
  by (induction vs) simp_all

lemma getitem_setitem:
  "getitem (setitem df c s) c' = (if c' = c then Inr s else getitem df c')"
  by (simp add: getitem_def setitem_def update_conv')

lemma getnum_setitem:
  "getnum (setitem df c (map Num vs)) c' = (if c' = c then Inr vs else getnum df c')"
  by (simp add: getnum_def getitem_setitem numeric_map_Num)

lemma nrows_setitem: "nrows (setitem df c s) = nrows df"
  by (simp add: setitem_def)

lemma calculate_traffic_score_numeric:
  assumes "getnum df Speed = Inr sp" and "getnum df Transit = Inr tr"
    and "getnum df Accidents = Inr ac"
  obtains scored where "calculate_traffic_score df = Inr scored"
    and "nrows scored = nrows df"
    and "getnum scored NormSpeed = Inr (normalize_ascending sp)"
    and "getnum scored NormTransit = Inr (normalize_ascending tr)"
    and "getnum scored NormAccidents = Inr (normalize_descending ac)"
    and "getnum scored Score =
           Inr (weighted_sum (normalize_ascending sp) (normalize_ascending tr)
                  (normalize_descending ac))"
    and "getitem scored Score =
           Inr (map Num (weighted_sum (normalize_ascending sp) (normalize_ascending tr)
                  (normalize_descending ac)))"
    and "\<And>c. c \<notin> {NormSpeed, NormTransit, NormAccidents, Score}
           \<Longrightarrow> getitem scored c = getitem df c"
proof -
  let ?d1 = "setitem df NormSpeed (map Num (normalize_ascending sp))"
  let ?d2 = "setitem ?d1 NormTransit (map Num (normalize_ascending tr))"
  let ?d3 = "setitem ?d2 NormAccidents (map Num (normalize_descending ac))"
  let ?w = "weighted_sum (normalize_ascending sp) (normalize_ascending tr) (normalize_descending ac)"
  let ?d4 = "setitem ?d3 Score (map Num ?w)"
  have "calculate_traffic_score df = Inr ?d4"
    using assms by (simp add: calculate_traffic_score_def getnum_setitem Let_def)
  moreover have "nrows ?d4 = nrows df" by (simp add: nrows_setitem)
  moreover have "getnum ?d4 NormSpeed = Inr (normalize_ascending sp)"
    "getnum ?d4 NormTransit = Inr (normalize_ascending tr)"
    "getnum ?d4 NormAccidents = Inr (normalize_descending ac)"
    "getnum ?d4 Score = Inr ?w"
    by (simp_all add: getnum_setitem)
  moreover have "getitem ?d4 Score = Inr (map Num ?w)" by (simp add: getitem_setitem)
  moreover have "\<And>c. c \<notin> {NormSpeed, NormTransit, NormAccidents, Score}
           \<Longrightarrow> getitem ?d4 c = getitem df c"
    by (simp add: getitem_setitem)
  ultimately show thesis using that by blast
qed

lemma weighted_sum_Fin:
  assumes "i < length a" and "length b = length a" and "length c = length a"
  shows "weighted_sum (map Fin a) (map Fin b) (map Fin c) ! i =
           Fin (a ! i * (4 / 10) + b ! i * (3 / 10) + c ! i * (3 / 10))"
  using assms by (simp add: weighted_sum_def weights_def)

lemma length_weighted_sum:
  "length (weighted_sum a b c) = min (length a) (min (length b) (length c))"
  by (simp add: weighted_sum_def)

lemma run_without_table:
  "run NoFile idx v = Inr EmptyPrompt" "run Unreadable idx v = Inr EmptyPrompt"
  by (simp_all add: run_def load_and_preprocess_data_def empty_frame_def script_def df_empty_def)

lemma run_Parsed: "run (Parsed df) idx v = script df idx v"
  by (simp add: run_def load_and_preprocess_data_def)

section \<open>Normalisation of a column with two distinct values\<close>



section \<open>Evaluating the example tables\<close>

lemmas eval_frame = calculate_traffic_score_def scored_column_def getnum_def getitem_def
  setitem_def normalize_ascending_def normalize_descending_def max_series_def min_series_def
  notna_def fl_max2_def fl_min2_def fl_sub_def weighted_sum_def weights_def inf_of_sign_def

section \<open>The columns of the scored frame\<close>


section \<open>A column whose values are all equal\<close>

text \<open>
  Claim C3 says that a column whose values are all equal is normalised to 100 in every
  row. The source has no such case: lines 33 to 35 divide by \<open>max - min\<close>, which is
  zero, and \<open>0 / 0\<close> is NaN. On the table of two regions with the same speed, the
  normalised speed column is NaN in both rows, not 100.
\<close>

theorem degenerate_column_counterexample:
  "getnum same_speed Speed = Inr [Fin 50, Fin 50]
   \<and> max_series [Fin 50, Fin 50] = min_series [Fin 50, Fin 50]
   \<and> scored_column same_speed NormSpeed = Inr [Num NaN, Num NaN]
   \<and> scored_column same_speed NormSpeed \<noteq> Inr [Num (Fin 100), Num (Fin 100)]"
  by (simp add: same_speed_def eval_frame)

text \<open>
  Claim C3 as amended. For a column of finite numbers whose maximum equals its minimum,
  both normalisations give NaN in every row.
\<close>

theorem normalize_degenerate:
  assumes "s = map Fin rs" and "max_series s = min_series s"
  shows "normalize_ascending s = map (\<lambda>v. NaN) s
       \<and> normalize_descending s = map (\<lambda>v. NaN) s"
proof -
  have both: "min_series s = Fin r \<and> max_series s = Fin r" if r: "r \<in> set rs" for r
  proof -
    from r have ne: "rs \<noteq> []" by auto
    from assms r have "r = Min (set rs) \<and> r = Max (set rs)"
      using degenerate_Fin[of rs r] by simp
    with ne assms(1) show ?thesis by (simp add: min_series_Fin max_series_Fin)
  qed
  have "normalize_ascending s = map (\<lambda>v. NaN) s"
    unfolding normalize_ascending_def assms(1)
    using both by (simp add: fl_sub_def inf_of_sign_def assms(1))
  moreover have "normalize_descending s = map (\<lambda>v. NaN) s"
    unfolding normalize_descending_def assms(1)
    using both by (simp add: fl_sub_def inf_of_sign_def assms(1))
  ultimately show ?thesis by simp
qed

theorem normalize_degenerate_witness:
  "max_series [Fin 50, Fin 50] = min_series [Fin 50, Fin 50]
   \<and> normalize_ascending [Fin 50, Fin 50] = [NaN, NaN]
   \<and> normalize_descending [Fin 50, Fin 50] = [NaN, NaN]"
proof -
  have s: "[Fin 50, Fin 50] = map Fin [50, 50]" by simp
  have h: "max_series [Fin 50, Fin 50] = min_series [Fin 50, Fin 50]"
    by (simp add: max_series_def min_series_def notna_def fl_max2_def fl_min2_def)
  from normalize_degenerate[OF s h] h show ?thesis by simp
qed

section \<open>The descending normalisation is the complement of the ascending one\<close>




section \<open>The traffic score\<close>









section \<open>Monotonicity of the normalised columns\<close>




section \<open>Facts about the comparison block\<close>

lemma numeric_Inr_D: "numeric s = Inr vs \<Longrightarrow> s = map Num vs"
proof (induction s arbitrary: vs)
  case Nil
  then show ?case by simp
next
  case (Cons c s)
  then show ?case by (cases c) (auto split: sum.splits)
qed

lemma numeric_Inr_iff: "numeric s = Inr vs \<longleftrightarrow> s = map Num vs"
  using numeric_Inr_D numeric_map_Num by blast

lemma getnum_Inr_iff: "getnum df c = Inr vs \<longleftrightarrow> getitem df c = Inr (map Num vs)"
  by (auto simp: getnum_def numeric_Inr_iff split: sum.splits)

lemma fold_add_Fin:
  "fold (\<lambda>v acc. fl_add acc v) (map Fin rs) (Fin a) = Fin (a + sum_list rs)"
  by (induction rs arbitrary: a) (simp_all add: add.assoc)

lemma sum_series_Fin: "sum_series (map Fin rs) = Fin (sum_list rs)"
  by (simp add: sum_series_def fold_add_Fin)

lemma mean_series_Fin:
  assumes "rs \<noteq> []"
  shows "mean_series (map Fin rs) = Fin (sum_list rs / real (length rs))"
proof -
  obtain r rs' where rs: "rs = r # rs'" using assms by (cases rs) auto
  have "filter notna (map Fin rs) = Fin r # map Fin rs'"
    using filter_notna_Fin[of rs] by (simp add: rs)
  then have "mean_series (map Fin rs)
      = fl_div (sum_series (map Fin (r # rs'))) (Fin (real (length (r # rs'))))"
    by (simp add: mean_series_def)
  also have "\<dots> = Fin (sum_list (r # rs') / real (length (r # rs')))"
    unfolding sum_series_Fin by simp
  finally show ?thesis by (simp add: rs)
qed

lemma sum_list_deviation:
  fixes rs :: "real list"
  shows "sum_list (map (\<lambda>r. r - m) rs) = sum_list rs - real (length rs) * m"
  by (induction rs) (simp_all add: algebra_simps)

lemma deviations_sum_to_zero:
  assumes "rs \<noteq> []"
  shows "sum_series (map (\<lambda>v. fl_sub v (mean_series (map Fin rs))) (map Fin rs)) = Fin 0"
proof -
  let ?m = "sum_list rs / real (length rs)"
  have "map (\<lambda>v. fl_sub v (mean_series (map Fin rs))) (map Fin rs)
      = map Fin (map (\<lambda>r. r - ?m) rs)"
    by (simp add: mean_series_Fin[OF assms] fl_sub_def)
  then have "sum_series (map (\<lambda>v. fl_sub v (mean_series (map Fin rs))) (map Fin rs))
      = Fin (sum_list (map (\<lambda>r. r - ?m) rs))"
    by (simp only: sum_series_Fin)
  also have "sum_list (map (\<lambda>r. r - ?m) rs) = 0"
    using assms by (simp add: sum_list_deviation)
  finally show ?thesis .
qed

lemma first_match_least:
  assumes "i < length names" and "py_eq (names ! i) v"
  obtains k where "first_match names v = Inr k" and "k \<le> i" and "py_eq (names ! k) v"
    and "\<And>j. j < k \<Longrightarrow> \<not> py_eq (names ! j) v"
proof -
  let ?P = "\<lambda>i. py_eq (names ! i) v"
  have "i \<in> set (filter ?P [0..<length names])" using assms by simp
  then obtain k ks where f: "filter ?P [0..<length names] = k # ks"
    by (cases "filter ?P [0..<length names]") auto
  then obtain us vs where split: "[0..<length names] = us @ k # vs"
    and none: "\<forall>u\<in>set us. \<not> ?P u" and pk: "?P k"
    by (auto simp: filter_eq_Cons_iff)
  have lu: "length us < length names"
    using arg_cong[OF split, of length] by simp
  have "[0..<length names] ! length us = k" by (simp add: split)
  then have k: "k = length us" using lu by simp
  have before: "\<not> ?P j" if "j < k" for j
  proof -
    have "[0..<length names] ! j = us ! j" using that k by (simp add: split nth_append)
    moreover have "[0..<length names] ! j = j" using that k lu by simp
    ultimately have "j \<in> set us" using that k by (metis nth_mem)
    with none show ?thesis by blast
  qed
  have "k \<le> i"
  proof (rule ccontr)
    assume "\<not> k \<le> i"
    then have "i < k" by simp
    from before[OF this] assms(2) show False by simp
  qed
  moreover have "first_match names v = Inr k" by (simp add: first_match_def f)
  ultimately show thesis using that pk before by blast
qed

lemma first_match_none:
  assumes "\<And>i. i < length names \<Longrightarrow> \<not> py_eq (names ! i) v"
  shows "first_match names v = Inl IndexError"
proof -
  have "filter (\<lambda>i. py_eq (names ! i) v) [0..<length names] = []"
    using assms by (simp add: filter_empty_conv)
  then show ?thesis by (simp add: first_match_def)
qed

lemma row_cell_numeric:
  assumes "getnum df c = Inr vs" and "k < length vs"
  shows "row_cell df k c = Inr (Num (vs ! k))"
  using assms by (simp add: row_cell_def getnum_Inr_iff)

lemma mean_numeric_only_numeric:
  assumes "getnum df c = Inr vs"
  shows "mean_numeric_only df c = Inr (mean_series vs)"
  using assms by (simp add: mean_numeric_only_def)

lemma compare_metric_numeric:
  assumes "getnum df c = Inr vs" and "k < length vs"
  shows "compare_metric df k c =
           Inr \<lparr>metric = c, user_val = vs ! k, avg_val = mean_series vs,
                diff = fl_sub (vs ! k) (mean_series vs),
                word = direction (fl_sub (vs ! k) (mean_series vs))\<rparr>"
  using assms by (simp add: compare_metric_def row_cell_numeric mean_numeric_only_numeric)

lemma compare_block_numeric:
  assumes "getitem df Region = Inr names" and "first_match names v = Inr k"
    and "getnum df Score = Inr sc" and "k < length sc"
    and "getnum df Speed = Inr sp" and "k < length sp"
    and "getnum df Transit = Inr tr" and "k < length tr"
    and "getnum df Accidents = Inr ac" and "k < length ac"
  shows "compare_block df v =
           Inr ((sc ! k, mean_series sc),
                [\<lparr>metric = Speed, user_val = sp ! k, avg_val = mean_series sp,
                  diff = fl_sub (sp ! k) (mean_series sp),
                  word = direction (fl_sub (sp ! k) (mean_series sp))\<rparr>,
                 \<lparr>metric = Transit, user_val = tr ! k, avg_val = mean_series tr,
                  diff = fl_sub (tr ! k) (mean_series tr),
                  word = direction (fl_sub (tr ! k) (mean_series tr))\<rparr>,
                 \<lparr>metric = Accidents, user_val = ac ! k, avg_val = mean_series ac,
                  diff = fl_sub (ac ! k) (mean_series ac),
                  word = direction (fl_sub (ac ! k) (mean_series ac))\<rparr>])"
  using assms
  by (simp add: compare_block_def compare_metric_numeric row_cell_numeric
      mean_numeric_only_numeric)

lemma direction_by_cases:
  assumes "d \<noteq> NaN"
  shows "(direction d = Higher) = fl_greater d (Fin 0)"
    and "(direction d = Lower) = fl_less d (Fin 0)"
    and "(direction d = Same) = (d = Fin 0)"
  using assms by (cases d; auto simp: direction_def fl_greater_def)+

lemma scored_comparison_numeric:
  assumes "getitem df Region = Inr names" and "first_match names v = Inr k"
    and "getnum df Speed = Inr sp" and "getnum df Transit = Inr tr"
    and "getnum df Accidents = Inr ac"
    and "k < length sp" and "length tr = length sp" and "length ac = length sp"
  shows "\<exists>score_line.
           scored_comparison df v =
           Inr (score_line,
                [\<lparr>metric = Speed, user_val = sp ! k, avg_val = mean_series sp,
                  diff = fl_sub (sp ! k) (mean_series sp),
                  word = direction (fl_sub (sp ! k) (mean_series sp))\<rparr>,
                 \<lparr>metric = Transit, user_val = tr ! k, avg_val = mean_series tr,
                  diff = fl_sub (tr ! k) (mean_series tr),
                  word = direction (fl_sub (tr ! k) (mean_series tr))\<rparr>,
                 \<lparr>metric = Accidents, user_val = ac ! k, avg_val = mean_series ac,
                  diff = fl_sub (ac ! k) (mean_series ac),
                  word = direction (fl_sub (ac ! k) (mean_series ac))\<rparr>])"
proof -
  let ?sc = "weighted_sum (normalize_ascending sp) (normalize_ascending tr)
               (normalize_descending ac)"
  obtain scored where sc: "calculate_traffic_score df = Inr scored"
    and score: "getnum scored Score = Inr ?sc"
    and same: "\<And>c. c \<notin> {NormSpeed, NormTransit, NormAccidents, Score}
           \<Longrightarrow> getitem scored c = getitem df c"
    using calculate_traffic_score_numeric[OF assms(3,4,5)] by blast
  have r: "getitem scored Region = Inr names" using same[of Region] assms(1) by simp
  have s: "getnum scored Speed = Inr sp" using same[of Speed] assms(3) by (simp add: getnum_def)
  have t: "getnum scored Transit = Inr tr"
    using same[of Transit] assms(4) by (simp add: getnum_def)
  have a: "getnum scored Accidents = Inr ac"
    using same[of Accidents] assms(5) by (simp add: getnum_def)
  have k: "k < length ?sc" "k < length tr" "k < length ac"
    using assms(6,7,8)
    by (simp_all add: length_weighted_sum normalize_ascending_def normalize_descending_def)
  show ?thesis
    unfolding scored_comparison_def sc
    using compare_block_numeric[OF r assms(2) score k(1) s assms(6) t k(2) a k(3)]
    by simp
qed

section \<open>The words of the comparison\<close>

text \<open>
  Claim C6. For a table whose three raw metric columns hold finite numbers and a
  selection that equals the region of some row, the comparison block has one line for
  each of the three metrics, in the order speed, transit, accidents; the difference of a
  line is the row's value minus the mean, and the word is "higher" exactly when the
  difference is above zero, "lower" exactly when it is below zero, and "same" exactly
  when it equals zero. The comparison is exact: for every difference that is not NaN,
  \<open>direction\<close> answers by the sign alone.
\<close>

theorem direction_label_by_sign:
  assumes "getitem df Region = Inr names"
    and "getnum df Speed = Inr (map Fin sp)"
    and "getnum df Transit = Inr (map Fin tr)"
    and "getnum df Accidents = Inr (map Fin ac)"
    and "length sp = length names" and "length tr = length names"
    and "length ac = length names"
    and "i < length names" and "py_eq (names ! i) user_location"
  shows "(case scored_comparison df user_location of
            Inl e \<Rightarrow> False
          | Inr (score_line, lines) \<Rightarrow>
              map metric lines = [Speed, Transit, Accidents]
              \<and> list_all label_matches_sign lines)
       \<and> (\<forall>d. d \<noteq> NaN \<longrightarrow>
              (direction d = Higher) = fl_greater d (Fin 0)
            \<and> (direction d = Lower) = fl_less d (Fin 0)
            \<and> (direction d = Same) = (d = Fin 0))"
proof -
  obtain k where fm: "first_match names user_location = Inr k" and ki: "k \<le> i"
    using first_match_least[OF assms(8,9)] by blast
  have k: "k < length (map Fin sp)" "length (map Fin tr) = length (map Fin sp)"
    "length (map Fin ac) = length (map Fin sp)"
    using ki assms(5-8) by simp_all
  have ne: "sp \<noteq> []" "tr \<noteq> []" "ac \<noteq> []" using assms(5-8) by auto
  have kk: "k < length sp" "k < length tr" "k < length ac" using ki assms(5-8) by simp_all
  obtain score_line where cmp: "scored_comparison df user_location =
           Inr (score_line,
                [\<lparr>metric = Speed, user_val = map Fin sp ! k, avg_val = mean_series (map Fin sp),
                  diff = fl_sub (map Fin sp ! k) (mean_series (map Fin sp)),
                  word = direction (fl_sub (map Fin sp ! k) (mean_series (map Fin sp)))\<rparr>,
                 \<lparr>metric = Transit, user_val = map Fin tr ! k, avg_val = mean_series (map Fin tr),
                  diff = fl_sub (map Fin tr ! k) (mean_series (map Fin tr)),
                  word = direction (fl_sub (map Fin tr ! k) (mean_series (map Fin tr)))\<rparr>,
                 \<lparr>metric = Accidents, user_val = map Fin ac ! k, avg_val = mean_series (map Fin ac),
                  diff = fl_sub (map Fin ac ! k) (mean_series (map Fin ac)),
                  word = direction (fl_sub (map Fin ac ! k) (mean_series (map Fin ac)))\<rparr>])"
    using scored_comparison_numeric[OF assms(1) fm assms(2,3,4) k] by blast
  have fin: "fl_sub (map Fin rs ! k) (mean_series (map Fin rs)) \<noteq> NaN"
    if "rs \<noteq> []" "k < length rs" for rs
    using that by (simp add: mean_series_Fin fl_sub_def)
  have ok: "label_matches_sign \<lparr>metric = c, user_val = map Fin rs ! k,
                  avg_val = mean_series (map Fin rs),
                  diff = fl_sub (map Fin rs ! k) (mean_series (map Fin rs)),
                  word = direction (fl_sub (map Fin rs ! k) (mean_series (map Fin rs)))\<rparr>"
    if "rs \<noteq> []" "k < length rs" for rs c
    using direction_by_cases[OF fin[OF that]] by (simp add: label_matches_sign_def)
  have first: "case scored_comparison df user_location of
            Inl e \<Rightarrow> False
          | Inr (score_line, lines) \<Rightarrow>
              map metric lines = [Speed, Transit, Accidents]
              \<and> list_all label_matches_sign lines"
    unfolding cmp using ok[OF ne(1) kk(1)] ok[OF ne(2) kk(2)] ok[OF ne(3) kk(3)] by simp
  have second: "\<forall>d. d \<noteq> NaN \<longrightarrow>
              (direction d = Higher) = fl_greater d (Fin 0)
            \<and> (direction d = Lower) = fl_less d (Fin 0)
            \<and> (direction d = Same) = (d = Fin 0)"
    using direction_by_cases by blast
  from first second show ?thesis by blast
qed


lemmas eval_compare = scored_comparison_def compare_block_def first_match_def row_cell_def
  mean_numeric_only_def compare_metric_def mean_series_def sum_series_def direction_def
  fl_greater_def

theorem direction_label_by_sign_witness:
  "getitem two_regions Region = Inr [Str ''A'', Str ''B'']
   \<and> getnum two_regions Speed = Inr (map Fin [30, 60])
   \<and> getnum two_regions Transit = Inr (map Fin [5, 15])
   \<and> getnum two_regions Accidents = Inr (map Fin [10, 2])
   \<and> py_eq ([Str ''A'', Str ''B''] ! 0) (Str ''A'')
   \<and> scored_comparison two_regions (Str ''A'')
       = Inr ((Fin 0, Fin 50),
              [\<lparr>metric = Speed, user_val = Fin 30, avg_val = Fin 45, diff = Fin (- 15),
                word = Lower\<rparr>,
               \<lparr>metric = Transit, user_val = Fin 5, avg_val = Fin 10, diff = Fin (- 5),
                word = Lower\<rparr>,
               \<lparr>metric = Accidents, user_val = Fin 10, avg_val = Fin 6, diff = Fin 4,
                word = Higher\<rparr>])
   \<and> label_matches_sign
         \<lparr>metric = Speed, user_val = Fin 30, avg_val = Fin 45, diff = Fin (- 15), word = Lower\<rparr>
   \<and> label_matches_sign
         \<lparr>metric = Accidents, user_val = Fin 10, avg_val = Fin 6, diff = Fin 4, word = Higher\<rparr>
   \<and> direction (Fin 0) = Same"
proof -
  have rg: "getitem two_regions Region = Inr [Str ''A'', Str ''B'']"
    by (simp add: two_regions_def getitem_def)
  have sp: "getnum two_regions Speed = Inr (map Fin [30, 60])"
    and tr: "getnum two_regions Transit = Inr (map Fin [5, 15])"
    and ac: "getnum two_regions Accidents = Inr (map Fin [10, 2])"
    by (simp_all add: two_regions_def getnum_def getitem_def)
  have l: "length [30, 60 :: real] = length [Str ''A'', Str ''B'']"
    "length [5, 15 :: real] = length [Str ''A'', Str ''B'']"
    "length [10, 2 :: real] = length [Str ''A'', Str ''B'']"
    by simp_all
  have i: "0 < length [Str ''A'', Str ''B'']" by simp
  have m: "py_eq ([Str ''A'', Str ''B''] ! 0) (Str ''A'')" by simp
  have ev: "scored_comparison two_regions (Str ''A'')
       = Inr ((Fin 0, Fin 50),
              [\<lparr>metric = Speed, user_val = Fin 30, avg_val = Fin 45, diff = Fin (- 15),
                word = Lower\<rparr>,
               \<lparr>metric = Transit, user_val = Fin 5, avg_val = Fin 10, diff = Fin (- 5),
                word = Lower\<rparr>,
               \<lparr>metric = Accidents, user_val = Fin 10, avg_val = Fin 6, diff = Fin 4,
                word = Higher\<rparr>])"
    by (simp add: two_regions_def eval_frame eval_compare)
  from direction_label_by_sign[OF rg sp tr ac l i m] rg sp tr ac m show ?thesis
    unfolding ev by (simp add: fl_sub_def)
qed

section \<open>The mean of the comparison\<close>

text \<open>
  Claim C7. For a table whose three raw metric columns hold finite numbers and a
  selection that equals the region of some row, the mean shown for each metric is the
  sum of the column over all its rows (the selected row among them) divided by the
  number of rows; and the differences between the values of a column and that mean add
  up to zero.
\<close>

theorem mean_over_all_rows:
  assumes "getitem df Region = Inr names"
    and "getnum df Speed = Inr (map Fin sp)"
    and "getnum df Transit = Inr (map Fin tr)"
    and "getnum df Accidents = Inr (map Fin ac)"
    and "length sp = length names" and "length tr = length names"
    and "length ac = length names"
    and "i < length names" and "py_eq (names ! i) user_location"
  shows "(case scored_comparison df user_location of
            Inl e \<Rightarrow> False
          | Inr (score_line, lines) \<Rightarrow>
              map metric lines = [Speed, Transit, Accidents]
              \<and> map avg_val lines =
                  [Fin (sum_list sp / real (length names)),
                   Fin (sum_list tr / real (length names)),
                   Fin (sum_list ac / real (length names))])
       \<and> sum_series (map (\<lambda>v. fl_sub v (mean_series (map Fin sp))) (map Fin sp)) = Fin 0
       \<and> sum_series (map (\<lambda>v. fl_sub v (mean_series (map Fin tr))) (map Fin tr)) = Fin 0
       \<and> sum_series (map (\<lambda>v. fl_sub v (mean_series (map Fin ac))) (map Fin ac)) = Fin 0"
proof -
  obtain k where fm: "first_match names user_location = Inr k" and ki: "k \<le> i"
    using first_match_least[OF assms(8,9)] by blast
  have k: "k < length (map Fin sp)" "length (map Fin tr) = length (map Fin sp)"
    "length (map Fin ac) = length (map Fin sp)"
    using ki assms(5-8) by simp_all
  have ne: "sp \<noteq> []" "tr \<noteq> []" "ac \<noteq> []" using assms(5-8) by auto
  obtain score_line where cmp: "scored_comparison df user_location =
           Inr (score_line,
                [\<lparr>metric = Speed, user_val = map Fin sp ! k, avg_val = mean_series (map Fin sp),
                  diff = fl_sub (map Fin sp ! k) (mean_series (map Fin sp)),
                  word = direction (fl_sub (map Fin sp ! k) (mean_series (map Fin sp)))\<rparr>,
                 \<lparr>metric = Transit, user_val = map Fin tr ! k, avg_val = mean_series (map Fin tr),
                  diff = fl_sub (map Fin tr ! k) (mean_series (map Fin tr)),
                  word = direction (fl_sub (map Fin tr ! k) (mean_series (map Fin tr)))\<rparr>,
                 \<lparr>metric = Accidents, user_val = map Fin ac ! k, avg_val = mean_series (map Fin ac),
                  diff = fl_sub (map Fin ac ! k) (mean_series (map Fin ac)),
                  word = direction (fl_sub (map Fin ac ! k) (mean_series (map Fin ac)))\<rparr>])"
    using scored_comparison_numeric[OF assms(1) fm assms(2,3,4) k] by blast
  have means: "mean_series (map Fin sp) = Fin (sum_list sp / real (length names))"
    "mean_series (map Fin tr) = Fin (sum_list tr / real (length names))"
    "mean_series (map Fin ac) = Fin (sum_list ac / real (length names))"
    using mean_series_Fin[OF ne(1)] mean_series_Fin[OF ne(2)] mean_series_Fin[OF ne(3)]
      assms(5,6,7)
    by simp_all
  have first: "case scored_comparison df user_location of
            Inl e \<Rightarrow> False
          | Inr (score_line, lines) \<Rightarrow>
              map metric lines = [Speed, Transit, Accidents]
              \<and> map avg_val lines =
                  [Fin (sum_list sp / real (length names)),
                   Fin (sum_list tr / real (length names)),
                   Fin (sum_list ac / real (length names))]"
    unfolding cmp by (simp add: means)
  from first deviations_sum_to_zero[OF ne(1)] deviations_sum_to_zero[OF ne(2)]
    deviations_sum_to_zero[OF ne(3)]
  show ?thesis by blast
qed

theorem mean_over_all_rows_witness:
  "getitem two_regions Region = Inr [Str ''A'', Str ''B'']
   \<and> getnum two_regions Speed = Inr (map Fin [30, 60])
   \<and> getnum two_regions Transit = Inr (map Fin [5, 15])
   \<and> getnum two_regions Accidents = Inr (map Fin [10, 2])
   \<and> py_eq ([Str ''A'', Str ''B''] ! 1) (Str ''B'')
   \<and> scored_comparison two_regions (Str ''B'')
       = Inr ((Fin 100, Fin 50),
              [\<lparr>metric = Speed, user_val = Fin 60, avg_val = Fin 45, diff = Fin 15,
                word = Higher\<rparr>,
               \<lparr>metric = Transit, user_val = Fin 15, avg_val = Fin 10, diff = Fin 5,
                word = Higher\<rparr>,
               \<lparr>metric = Accidents, user_val = Fin 2, avg_val = Fin 6, diff = Fin (- 4),
                word = Lower\<rparr>])
   \<and> mean_series (map Fin [30, 60]) = Fin 45
   \<and> sum_series (map (\<lambda>v. fl_sub v (Fin 45)) (map Fin [30, 60])) = Fin 0"
proof -
  have rg: "getitem two_regions Region = Inr [Str ''A'', Str ''B'']"
    by (simp add: two_regions_def getitem_def)
  have sp: "getnum two_regions Speed = Inr (map Fin [30, 60])"
    and tr: "getnum two_regions Transit = Inr (map Fin [5, 15])"
    and ac: "getnum two_regions Accidents = Inr (map Fin [10, 2])"
    by (simp_all add: two_regions_def getnum_def getitem_def)
  have l: "length [30, 60 :: real] = length [Str ''A'', Str ''B'']"
    "length [5, 15 :: real] = length [Str ''A'', Str ''B'']"
    "length [10, 2 :: real] = length [Str ''A'', Str ''B'']"
    by simp_all
  have i: "1 < length [Str ''A'', Str ''B'']" by simp
  have m: "py_eq ([Str ''A'', Str ''B''] ! 1) (Str ''B'')" by simp
  have mean: "mean_series (map Fin [30, 60]) = Fin 45"
    by (simp add: mean_series_def sum_series_def notna_def)
  note t = mean_over_all_rows[OF rg sp tr ac l i m]
  have a: "scored_comparison two_regions (Str ''B'')
       = Inr ((Fin 100, Fin 50),
              [\<lparr>metric = Speed, user_val = Fin 60, avg_val = Fin 45, diff = Fin 15,
                word = Higher\<rparr>,
               \<lparr>metric = Transit, user_val = Fin 15, avg_val = Fin 10, diff = Fin 5,
                word = Higher\<rparr>,
               \<lparr>metric = Accidents, user_val = Fin 2, avg_val = Fin 6, diff = Fin (- 4),
                word = Lower\<rparr>])"
    by (simp add: two_regions_def eval_frame eval_compare)
  from t have b: "sum_series (map (\<lambda>v. fl_sub v (Fin 45)) (map Fin [30, 60])) = Fin 0"
    unfolding mean by blast
  from t rg sp tr ac m a mean b show ?thesis by blast
qed

section \<open>When the score fails\<close>

lemma numeric_Inl_iff: "numeric s = Inl e \<longleftrightarrow> e = TypeError \<and> list_ex is_text s"
proof (induction s)
  case Nil
  then show ?case by simp
next
  case (Cons c s)
  then show ?case by (cases c) (auto split: sum.splits)
qed

lemma getnum_Inl_iff:
  "getnum df c = Inl e \<longleftrightarrow>
     (missing df c \<and> e = KeyError c) \<or> (has_text df c \<and> e = TypeError)"
  by (auto simp: getnum_def getitem_def missing_def has_text_def numeric_Inl_iff
      split: option.splits)

lemma getnum_cases:
  obtains (fails) e where "getnum df c = Inl e" | (numbers) vs where "getnum df c = Inr vs"
  by (cases "getnum df c") auto

lemma calculate_traffic_score_Speed_fails:
  "getnum df Speed = Inl e \<Longrightarrow> calculate_traffic_score df = Inl e"
  by (simp add: calculate_traffic_score_def)

lemma calculate_traffic_score_Transit_fails:
  "getnum df Speed = Inr sp \<Longrightarrow> getnum df Transit = Inl e
     \<Longrightarrow> calculate_traffic_score df = Inl e"
  by (simp add: calculate_traffic_score_def getnum_setitem Let_def)

lemma calculate_traffic_score_Accidents_fails:
  "getnum df Speed = Inr sp \<Longrightarrow> getnum df Transit = Inr tr \<Longrightarrow> getnum df Accidents = Inl e
     \<Longrightarrow> calculate_traffic_score df = Inl e"
  by (simp add: calculate_traffic_score_def getnum_setitem Let_def)

lemma calculate_traffic_score_succeeds:
  "getnum df Speed = Inr sp \<Longrightarrow> getnum df Transit = Inr tr \<Longrightarrow> getnum df Accidents = Inr ac
     \<Longrightarrow> \<exists>scored. calculate_traffic_score df = Inr scored"
  by (simp add: calculate_traffic_score_def getnum_setitem Let_def)

text \<open>
  Claim C8 says that the score fails when the table is empty. It does not: the script
  calls \<open>calculate_traffic_score\<close> only when \<open>df.empty\<close> is false (line 56) and shows
  the upload prompt otherwise, and the function itself, given the table of a file with
  the header line only, returns it with four more empty columns.
\<close>

theorem empty_table_counterexample:
  "df_empty header_only
   \<and> calculate_traffic_score header_only
       = Inr \<lparr>nrows = 0,
              columns = [(Region, []), (Speed, []), (Transit, []), (Accidents, []),
                         (NormSpeed, []), (NormTransit, []), (NormAccidents, []),
                         (Score, [])]\<rparr>
   \<and> script header_only [] (Str ''A'') = Inr EmptyPrompt"
  by (simp add: header_only_def df_empty_def script_def eval_frame)

text \<open>
  Claim C8 as amended. \<open>calculate_traffic_score\<close> fails exactly when one of the three
  raw metric columns is missing or holds text in some row: with KeyError for a missing
  column and TypeError for text. On every other table, also one without rows, it returns
  a frame. An empty table never reaches it: the script shows the upload prompt instead.
\<close>

theorem score_fails_iff:
  "((\<exists>e. calculate_traffic_score df = Inl e)
      = (\<exists>c \<in> {Speed, Transit, Accidents}. missing df c \<or> has_text df c))
   \<and> (\<forall>e. calculate_traffic_score df = Inl e \<longrightarrow>
          (\<exists>c \<in> {Speed, Transit, Accidents}.
              (missing df c \<and> e = KeyError c) \<or> (has_text df c \<and> e = TypeError)))
   \<and> ((\<exists>scored. calculate_traffic_score df = Inr scored)
      = (\<forall>c \<in> {Speed, Transit, Accidents}. \<not> missing df c \<and> \<not> has_text df c))
   \<and> (df_empty df \<longrightarrow> script df idx user_location = Inr EmptyPrompt)"
proof -
  have prompt: "df_empty df \<longrightarrow> script df idx user_location = Inr EmptyPrompt"
    by (simp add: script_def)
  have kind: "\<exists>c \<in> {Speed, Transit, Accidents}.
              (missing df c \<and> e = KeyError c) \<or> (has_text df c \<and> e = TypeError)"
    if "calculate_traffic_score df = Inl e" for e
  proof (cases rule: getnum_cases[of df Speed])
    case (fails e')
    with that have "e' = e" by (simp add: calculate_traffic_score_Speed_fails)
    with fails show ?thesis by (auto simp: getnum_Inl_iff)
  next
    case sp: (numbers sp)
    show ?thesis
    proof (cases rule: getnum_cases[of df Transit])
      case (fails e')
      with that sp have "e' = e" by (simp add: calculate_traffic_score_Transit_fails)
      with fails show ?thesis by (auto simp: getnum_Inl_iff)
    next
      case tr: (numbers tr)
      show ?thesis
      proof (cases rule: getnum_cases[of df Accidents])
        case (fails e')
        with that sp tr have "e' = e" by (simp add: calculate_traffic_score_Accidents_fails)
        with fails show ?thesis by (auto simp: getnum_Inl_iff)
      next
        case (numbers ac)
        with that sp tr show ?thesis
          using calculate_traffic_score_succeeds[of df sp tr ac] by simp
      qed
    qed
  qed
  have fails: "\<exists>e. calculate_traffic_score df = Inl e"
    if "c \<in> {Speed, Transit, Accidents}" and "missing df c \<or> has_text df c" for c
  proof -
    from that(2) obtain e where e: "getnum df c = Inl e" by (auto simp: getnum_Inl_iff)
    show ?thesis
    proof (cases rule: getnum_cases[of df Speed])
      case (fails e')
      then show ?thesis using calculate_traffic_score_Speed_fails by blast
    next
      case sp: (numbers sp)
      show ?thesis
      proof (cases rule: getnum_cases[of df Transit])
        case (fails e')
        with sp show ?thesis using calculate_traffic_score_Transit_fails by blast
      next
        case tr: (numbers tr)
        from that(1) e sp tr have "getnum df Accidents = Inl e" by auto
        with sp tr show ?thesis using calculate_traffic_score_Accidents_fails by blast
      qed
    qed
  qed
  have iff: "(\<exists>e. calculate_traffic_score df = Inl e)
      = (\<exists>c \<in> {Speed, Transit, Accidents}. missing df c \<or> has_text df c)"
    using kind fails by blast
  have "(\<exists>scored. calculate_traffic_score df = Inr scored)
      = (\<not> (\<exists>e. calculate_traffic_score df = Inl e))"
    by (cases "calculate_traffic_score df") auto
  with iff have ok: "(\<exists>scored. calculate_traffic_score df = Inr scored)
      = (\<forall>c \<in> {Speed, Transit, Accidents}. \<not> missing df c \<and> \<not> has_text df c)"
    by blast
  from iff kind ok prompt show ?thesis by blast
qed

theorem score_fails_iff_witness:
  "missing no_transit Transit
   \<and> calculate_traffic_score no_transit = Inl (KeyError Transit)
   \<and> has_text text_speed Speed
   \<and> calculate_traffic_score text_speed = Inl TypeError
   \<and> \<not> missing two_regions Speed \<and> \<not> has_text two_regions Speed
   \<and> \<not> missing two_regions Transit \<and> \<not> has_text two_regions Transit
   \<and> \<not> missing two_regions Accidents \<and> \<not> has_text two_regions Accidents
   \<and> scored_column two_regions Score = Inr [Num (Fin 0), Num (Fin 100)]
   \<and> df_empty header_only
   \<and> script header_only [] (Str ''A'') = Inr EmptyPrompt"
proof -
  have a: "missing no_transit Transit"
    "calculate_traffic_score no_transit = Inl (KeyError Transit)"
    using score_fails_iff[of no_transit "[]" "Str ''A''"]
    by (simp_all add: no_transit_def missing_def eval_frame)
  have b: "has_text text_speed Speed" "calculate_traffic_score text_speed = Inl TypeError"
    using score_fails_iff[of text_speed "[]" "Str ''A''"]
    by (simp_all add: text_speed_def has_text_def eval_frame)
  have c: "\<not> missing two_regions Speed \<and> \<not> has_text two_regions Speed"
    "\<not> missing two_regions Transit \<and> \<not> has_text two_regions Transit"
    "\<not> missing two_regions Accidents \<and> \<not> has_text two_regions Accidents"
    by (simp_all add: two_regions_def missing_def has_text_def)
  have d: "scored_column two_regions Score = Inr [Num (Fin 0), Num (Fin 100)]"
    using score_fails_iff[of two_regions "[]" "Str ''A''"] c
    by (simp add: two_regions_def eval_frame)
  have e: "df_empty header_only" by (simp add: header_only_def df_empty_def)
  from score_fails_iff[of header_only "[]" "Str ''A''"] e
  have f: "script header_only [] (Str ''A'') = Inr EmptyPrompt" by blast
  from a b c d e f show ?thesis by blast
qed

section \<open>Facts about the ranked table and the script\<close>

lemma display_df_result:
  assumes "getitem df Region = Inr rg" and "getitem df Speed = Inr sp"
    and "getitem df Transit = Inr tr" and "getitem df Accidents = Inr ac"
    and "getitem df Score = Inr sc"
  shows "display_df idx df =
           Inr \<lparr>nrows = length idx,
                columns = [(Region, map (\<lambda>i. rg ! i) idx),
                           (Rank, arange_ranks (length idx)),
                           (Speed, map (\<lambda>i. sp ! i) idx),
                           (Transit, map (\<lambda>i. tr ! i) idx),
                           (Accidents, map (\<lambda>i. ac ! i) idx),
                           (Score, map (\<lambda>i. sc ! i) idx)]\<rparr>"
  using assms
  by (simp add: display_df_def sort_values_desc_def take_rows_def insert_column_def
      getitem_def)

lemma scored_frame_columns:
  assumes "getitem df Region = Inr names" and "getnum df Speed = Inr sp"
    and "getnum df Transit = Inr tr" and "getnum df Accidents = Inr ac"
  obtains scored where "calculate_traffic_score df = Inr scored"
    and "getitem scored Region = Inr names"
    and "getitem scored Speed = Inr (map Num sp)"
    and "getitem scored Transit = Inr (map Num tr)"
    and "getitem scored Accidents = Inr (map Num ac)"
    and "getitem scored Score =
           Inr (map Num (weighted_sum (normalize_ascending sp) (normalize_ascending tr)
                  (normalize_descending ac)))"
proof -
  obtain scored where sc: "calculate_traffic_score df = Inr scored"
    and score: "getitem scored Score =
           Inr (map Num (weighted_sum (normalize_ascending sp) (normalize_ascending tr)
                  (normalize_descending ac)))"
    and same: "\<And>c. c \<notin> {NormSpeed, NormTransit, NormAccidents, Score}
           \<Longrightarrow> getitem scored c = getitem df c"
    using calculate_traffic_score_numeric[OF assms(2,3,4)] by blast
  have "getitem scored Region = Inr names" using same[of Region] assms(1) by simp
  moreover have "getitem scored Speed = Inr (map Num sp)"
    using same[of Speed] assms(2) by (simp add: getnum_Inr_iff)
  moreover have "getitem scored Transit = Inr (map Num tr)"
    using same[of Transit] assms(3) by (simp add: getnum_Inr_iff)
  moreover have "getitem scored Accidents = Inr (map Num ac)"
    using same[of Accidents] assms(4) by (simp add: getnum_Inr_iff)
  ultimately show thesis using that sc score by blast
qed

lemma script_numeric:
  assumes "getitem df Region = Inr names" and "getnum df Speed = Inr sp"
    and "getnum df Transit = Inr tr" and "getnum df Accidents = Inr ac"
    and "\<not> df_empty df"
  obtains table where
    "script df idx v =
       (if \<not> py_eq v (Str placeholder) then
          (case scored_comparison df v of
             Inl e \<Rightarrow> Inl e
           | Inr block \<Rightarrow> Inr (Dashboard table (Some block)))
        else Inr (Dashboard table None))"
proof -
  obtain scored where sc: "calculate_traffic_score df = Inr scored"
    and cols: "getitem scored Region = Inr names"
      "getitem scored Speed = Inr (map Num sp)"
      "getitem scored Transit = Inr (map Num tr)"
      "getitem scored Accidents = Inr (map Num ac)"
      "getitem scored Score =
           Inr (map Num (weighted_sum (normalize_ascending sp) (normalize_ascending tr)
                  (normalize_descending ac)))"
    using scored_frame_columns[OF assms(1-4)] by blast
  obtain table where t: "display_df idx scored = Inr table"
    using display_df_result[OF cols] by blast
  have "script df idx v =
       (if \<not> py_eq v (Str placeholder) then
          (case scored_comparison df v of
             Inl e \<Rightarrow> Inl e
           | Inr block \<Rightarrow> Inr (Dashboard table (Some block)))
        else Inr (Dashboard table None))"
    using assms(5) by (simp add: script_def sc t cols(1) scored_comparison_def)
  then show thesis using that by blast
qed

lemma scored_comparison_no_match:
  assumes "getitem df Region = Inr names" and "getnum df Speed = Inr sp"
    and "getnum df Transit = Inr tr" and "getnum df Accidents = Inr ac"
    and "first_match names v = Inl e"
  shows "scored_comparison df v = Inl e"
proof -
  obtain scored where sc: "calculate_traffic_score df = Inr scored"
    and r: "getitem scored Region = Inr names"
    using scored_frame_columns[OF assms(1-4)] by blast
  show ?thesis by (simp add: scored_comparison_def sc compare_block_def r assms(5))
qed

section \<open>Looking the selected region up\<close>

text \<open>
  Claim C9 says that a name that matches no row is recovered by showing no comparison
  block. The script has no handler: line 101 raises IndexError, nothing catches it, and
  the run ends with that error. On the table of two regions A and B with the selection
  C, the script gives IndexError, not a dashboard without comparison block.
\<close>

theorem region_not_found_counterexample:
  "getitem two_regions Region = Inr [Str ''A'', Str ''B'']
   \<and> \<not> py_eq (Str ''A'') (Str ''C'') \<and> \<not> py_eq (Str ''B'') (Str ''C'')
   \<and> \<not> py_eq (Str ''C'') (Str placeholder)
   \<and> scored_comparison two_regions (Str ''C'') = Inl IndexError
   \<and> script two_regions [1, 0] (Str ''C'') = Inl IndexError"
  by (simp add: two_regions_def script_def display_df_def sort_values_desc_def take_rows_def
      insert_column_def arange_ranks_def placeholder_def df_empty_def eval_frame eval_compare)

text \<open>
  Claim C9 as amended. For a non-empty table with a region column and three numeric
  metric columns: when the selection equals the region of some row, the comparison uses
  the first such row (its values are the user's values of the three lines), also when
  the name occurs more than once; when the selection equals the region of no row, the
  lookup raises IndexError and, unless the selection is the placeholder option, the
  script ends with that error; the placeholder option is the one selection for which
  the script shows the dashboard without a comparison block.
\<close>

theorem region_lookup:
  assumes "getitem df Region = Inr names"
    and "getnum df Speed = Inr sp" and "getnum df Transit = Inr tr"
    and "getnum df Accidents = Inr ac"
    and "length sp = length names" and "length tr = length names"
    and "length ac = length names"
    and "\<not> df_empty df"
  shows "(\<forall>i<length names. py_eq (names ! i) user_location \<longrightarrow>
            (\<exists>k\<le>i. first_match names user_location = Inr k
                 \<and> py_eq (names ! k) user_location
                 \<and> (\<forall>j<k. \<not> py_eq (names ! j) user_location)
                 \<and> (case scored_comparison df user_location of
                       Inl e \<Rightarrow> False
                     | Inr (score_line, lines) \<Rightarrow>
                         map user_val lines = [sp ! k, tr ! k, ac ! k])))
       \<and> ((\<forall>i<length names. \<not> py_eq (names ! i) user_location) \<longrightarrow>
            scored_comparison df user_location = Inl IndexError
            \<and> (\<not> py_eq user_location (Str placeholder)
                 \<longrightarrow> script df idx user_location = Inl IndexError))
       \<and> (py_eq user_location (Str placeholder) \<longrightarrow>
            (\<exists>table. script df idx user_location = Inr (Dashboard table None)))"
proof -
  obtain table where scr: "script df idx user_location =
       (if \<not> py_eq user_location (Str placeholder) then
          (case scored_comparison df user_location of
             Inl e \<Rightarrow> Inl e
           | Inr block \<Rightarrow> Inr (Dashboard table (Some block)))
        else Inr (Dashboard table None))"
    using script_numeric[OF assms(1-4,8)] by blast
  have found: "\<exists>k\<le>i. first_match names user_location = Inr k
                 \<and> py_eq (names ! k) user_location
                 \<and> (\<forall>j<k. \<not> py_eq (names ! j) user_location)
                 \<and> (case scored_comparison df user_location of
                       Inl e \<Rightarrow> False
                     | Inr (score_line, lines) \<Rightarrow>
                         map user_val lines = [sp ! k, tr ! k, ac ! k])"
    if i: "i < length names" and m: "py_eq (names ! i) user_location" for i
  proof -
    obtain k where fm: "first_match names user_location = Inr k" and ki: "k \<le> i"
      and pk: "py_eq (names ! k) user_location"
      and before: "\<And>j. j < k \<Longrightarrow> \<not> py_eq (names ! j) user_location"
      using first_match_least[OF i m] by blast
    have k: "k < length sp" "length tr = length sp" "length ac = length sp"
      using ki i assms(5,6,7) by simp_all
    from scored_comparison_numeric[OF assms(1) fm assms(2,3,4) k]
    have "case scored_comparison df user_location of
                       Inl e \<Rightarrow> False
                     | Inr (score_line, lines) \<Rightarrow>
                         map user_val lines = [sp ! k, tr ! k, ac ! k]"
      by auto
    with fm ki pk before show ?thesis by blast
  qed
  have absent: "scored_comparison df user_location = Inl IndexError
            \<and> (\<not> py_eq user_location (Str placeholder)
                 \<longrightarrow> script df idx user_location = Inl IndexError)"
    if none: "\<forall>i<length names. \<not> py_eq (names ! i) user_location"
  proof -
    have "first_match names user_location = Inl IndexError"
      using none by (intro first_match_none) simp
    then have c: "scored_comparison df user_location = Inl IndexError"
      using scored_comparison_no_match[OF assms(1-4)] by blast
    then show ?thesis by (simp add: scr)
  qed
  have sentinel: "\<exists>table. script df idx user_location = Inr (Dashboard table None)"
    if "py_eq user_location (Str placeholder)"
    using that by (simp add: scr)
  from found absent sentinel show ?thesis by blast
qed

theorem region_lookup_witness:
  "getitem duplicate_names Region = Inr [Str ''A'', Str ''B'', Str ''A'']
   \<and> getnum duplicate_names Speed = Inr [Fin 30, Fin 60, Fin 45]
   \<and> getnum duplicate_names Transit = Inr [Fin 5, Fin 15, Fin 10]
   \<and> getnum duplicate_names Accidents = Inr [Fin 10, Fin 2, Fin 6]
   \<and> \<not> df_empty duplicate_names
   \<and> py_eq ([Str ''A'', Str ''B'', Str ''A''] ! 2) (Str ''A'')
   \<and> first_match [Str ''A'', Str ''B'', Str ''A''] (Str ''A'') = Inr 0
   \<and> scored_comparison duplicate_names (Str ''A'')
       = Inr ((Fin 0, Fin 50),
              [\<lparr>metric = Speed, user_val = Fin 30, avg_val = Fin 45, diff = Fin (- 15),
                word = Lower\<rparr>,
               \<lparr>metric = Transit, user_val = Fin 5, avg_val = Fin 10, diff = Fin (- 5),
                word = Lower\<rparr>,
               \<lparr>metric = Accidents, user_val = Fin 10, avg_val = Fin 6, diff = Fin 4,
                word = Higher\<rparr>])
   \<and> scored_comparison duplicate_names (Str ''C'') = Inl IndexError
   \<and> script duplicate_names [1, 2, 0] (Str ''C'') = Inl IndexError
   \<and> script duplicate_names [1, 2, 0] (Str placeholder)
       = Inr (Dashboard
               \<lparr>nrows = 3,
                columns = [(Region, [Str ''B'', Str ''A'', Str ''A'']),
                           (Rank, [Num (Fin 1), Num (Fin 2), Num (Fin 3)]),
                           (Speed, [Num (Fin 60), Num (Fin 45), Num (Fin 30)]),
                           (Transit, [Num (Fin 15), Num (Fin 10), Num (Fin 5)]),
                           (Accidents, [Num (Fin 2), Num (Fin 6), Num (Fin 10)]),
                           (Score, [Num (Fin 100), Num (Fin 50), Num (Fin 0)])]\<rparr>
               None)"
proof -
  have rg: "getitem duplicate_names Region = Inr [Str ''A'', Str ''B'', Str ''A'']"
    by (simp add: duplicate_names_def getitem_def)
  have sp: "getnum duplicate_names Speed = Inr [Fin 30, Fin 60, Fin 45]"
    and tr: "getnum duplicate_names Transit = Inr [Fin 5, Fin 15, Fin 10]"
    and ac: "getnum duplicate_names Accidents = Inr [Fin 10, Fin 2, Fin 6]"
    by (simp_all add: duplicate_names_def getnum_def getitem_def)
  have l: "length [Fin 30, Fin 60, Fin 45] = length [Str ''A'', Str ''B'', Str ''A'']"
    "length [Fin 5, Fin 15, Fin 10] = length [Str ''A'', Str ''B'', Str ''A'']"
    "length [Fin 10, Fin 2, Fin 6] = length [Str ''A'', Str ''B'', Str ''A'']"
    by simp_all
  have ne: "\<not> df_empty duplicate_names" by (simp add: duplicate_names_def df_empty_def)
  have m: "py_eq ([Str ''A'', Str ''B'', Str ''A''] ! 2) (Str ''A'')" by simp
  have fm: "first_match [Str ''A'', Str ''B'', Str ''A''] (Str ''A'') = Inr 0"
    by (simp add: first_match_def)
  have cmp: "scored_comparison duplicate_names (Str ''A'')
       = Inr ((Fin 0, Fin 50),
              [\<lparr>metric = Speed, user_val = Fin 30, avg_val = Fin 45, diff = Fin (- 15),
                word = Lower\<rparr>,
               \<lparr>metric = Transit, user_val = Fin 5, avg_val = Fin 10, diff = Fin (- 5),
                word = Lower\<rparr>,
               \<lparr>metric = Accidents, user_val = Fin 10, avg_val = Fin 6, diff = Fin 4,
                word = Higher\<rparr>])"
    by (simp add: duplicate_names_def eval_frame eval_compare)
  have none: "\<forall>i<length [Str ''A'', Str ''B'', Str ''A''].
      \<not> py_eq ([Str ''A'', Str ''B'', Str ''A''] ! i) (Str ''C'')"
    by (simp add: less_Suc_eq)
  have np: "\<not> py_eq (Str ''C'') (Str placeholder)" by (simp add: placeholder_def)
  note t = region_lookup[OF rg sp tr ac l ne, of "Str ''C''" "[1, 2, 0]"]
  from t none np have absent: "scored_comparison duplicate_names (Str ''C'') = Inl IndexError"
    "script duplicate_names [1, 2, 0] (Str ''C'') = Inl IndexError"
    by blast+
  have shown: "script duplicate_names [1, 2, 0] (Str placeholder)
       = Inr (Dashboard
               \<lparr>nrows = 3,
                columns = [(Region, [Str ''B'', Str ''A'', Str ''A'']),
                           (Rank, [Num (Fin 1), Num (Fin 2), Num (Fin 3)]),
                           (Speed, [Num (Fin 60), Num (Fin 45), Num (Fin 30)]),
                           (Transit, [Num (Fin 15), Num (Fin 10), Num (Fin 5)]),
                           (Accidents, [Num (Fin 2), Num (Fin 6), Num (Fin 10)]),
                           (Score, [Num (Fin 100), Num (Fin 50), Num (Fin 0)])]\<rparr>
               None)"
    by (simp add: duplicate_names_def script_def display_df_def sort_values_desc_def
        take_rows_def insert_column_def arange_ranks_def df_empty_def eval_frame)
  from rg sp tr ac ne m fm cmp absent shown show ?thesis by blast
qed

section \<open>The order of the ranked table\<close>









section \<open>Facts about rounding\<close>

lemma round_half_even_of_int: "round_half_even (of_int k) = k"
  by (simp add: round_half_even_def)

lemma round_half_even_bounds:
  "of_int (round_half_even x) \<le> x + 1 / 2" "x - 1 / 2 \<le> of_int (round_half_even x)"
  unfolding round_half_even_def Let_def by (auto, linarith+)

lemma round_half_even_mono:
  assumes "x \<le> y"
  shows "round_half_even x \<le> round_half_even y"
proof (cases "\<lfloor>x\<rfloor> = \<lfloor>y\<rfloor>")
  case True
  then have "x - of_int \<lfloor>x\<rfloor> \<le> y - of_int \<lfloor>y\<rfloor>" using assms by simp
  then show ?thesis
    unfolding round_half_even_def Let_def using True by auto
next
  case False
  then have "\<lfloor>x\<rfloor> < \<lfloor>y\<rfloor>" using assms floor_mono[of x y] by linarith
  moreover have "round_half_even x \<le> \<lfloor>x\<rfloor> + 1"
    unfolding round_half_even_def Let_def by auto
  moreover have "\<lfloor>y\<rfloor> \<le> round_half_even y"
    unfolding round_half_even_def Let_def by auto
  ultimately show ?thesis by linarith
qed

lemma two_powr_int: "(2::real) powr (real_of_int k) = 2 powi k"
  by (simp add: powr_real_of_int')

lemma two_powr_int_Suc: "(2::real) powr (real_of_int k + 1) = 2 powi (k + 1)"
  using two_powr_int[of "k + 1"] by simp

lemma floor_log2_iff:
  assumes "0 < x"
  shows "\<lfloor>log 2 x\<rfloor> = k \<longleftrightarrow> 2 powi k \<le> x \<and> x < 2 powi (k + 1)"
  using floor_log_eq_powr_iff[OF assms, of 2 k]
  by (simp only: two_powr_int two_powr_int_Suc)

lemma floor_log2_bounds:
  assumes "0 < x"
  shows "2 powi \<lfloor>log 2 x\<rfloor> \<le> x" and "x < 2 powi (\<lfloor>log 2 x\<rfloor> + 1)"
  using floor_log2_iff[OF assms, of "\<lfloor>log 2 x\<rfloor>"] by simp_all


lemma two_powi_pos: "0 < (2::real) powi k"
  by (simp add: zero_less_power_int)

lemma two_powi_mono: "a \<le> b \<Longrightarrow> (2::real) powi a \<le> 2 powi b"
  by (rule power_int_increasing) simp_all

lemma two_powi_add: "(2::real) powi (a + b) = 2 powi a * 2 powi b"
  by (simp add: power_int_add)

lemma exponent64_ge: "- 1074 \<le> exponent64 x"
  by (simp add: exponent64_def)

lemma exponent64_upper:
  assumes "x \<noteq> 0"
  shows "\<bar>x\<bar> < 2 powi (exponent64 x + 53)"
proof -
  have pos: "0 < \<bar>x\<bar>" using assms by simp
  have "\<lfloor>log 2 \<bar>x\<bar>\<rfloor> + 1 \<le> exponent64 x + 53" by (simp add: exponent64_def)
  then have "(2::real) powi (\<lfloor>log 2 \<bar>x\<bar>\<rfloor> + 1) \<le> 2 powi (exponent64 x + 53)"
    by (rule two_powi_mono)
  with floor_log2_bounds(2)[OF pos] show ?thesis by linarith
qed

lemma exponent64_lower:
  assumes "x \<noteq> 0" and "- 1074 < exponent64 x"
  shows "2 powi (exponent64 x + 52) \<le> \<bar>x\<bar>"
proof -
  have pos: "0 < \<bar>x\<bar>" using assms by simp
  have "exponent64 x = \<lfloor>log 2 \<bar>x\<bar>\<rfloor> - 52" using assms(2) by (simp add: exponent64_def max_def split: if_splits)
  then have "exponent64 x + 52 = \<lfloor>log 2 \<bar>x\<bar>\<rfloor>" by simp
  with floor_log2_bounds(1)[OF pos] show ?thesis by simp
qed

lemma exponent64_mono:
  assumes "0 < x" and "x \<le> y"
  shows "exponent64 x \<le> exponent64 y"
proof -
  have "log 2 x \<le> log 2 y" using assms by simp
  then have "\<lfloor>log 2 x\<rfloor> \<le> \<lfloor>log 2 y\<rfloor>" by (rule floor_mono)
  then show ?thesis using assms by (simp add: exponent64_def)
qed

lemma ideal64_nonneg:
  assumes "0 \<le> x"
  shows "0 \<le> ideal64 x"
proof -
  have "0 \<le> x / 2 powi exponent64 x" using assms two_powi_pos[of "exponent64 x"] by simp
  then have "round_half_even 0 \<le> round_half_even (x / 2 powi exponent64 x)"
    by (rule round_half_even_mono)
  then have "0 \<le> round_half_even (x / 2 powi exponent64 x)"
    using round_half_even_of_int[of 0] by simp
  then show ?thesis using two_powi_pos[of "exponent64 x"] by (simp add: ideal64_def)
qed

lemma ideal64_le_top:
  assumes "0 < x"
  shows "ideal64 x \<le> 2 powi (exponent64 x + 53)"
proof -
  let ?e = "exponent64 x"
  have "x < 2 powi (?e + 53)" using exponent64_upper[of x] assms by simp
  then have "x / 2 powi ?e \<le> 2 powi 53"
    using two_powi_pos[of ?e] by (simp add: two_powi_add field_simps)
  then have "round_half_even (x / 2 powi ?e) \<le> round_half_even (of_int (2 ^ 53))"
    by (intro round_half_even_mono) simp
  then have "round_half_even (x / 2 powi ?e) \<le> 2 ^ 53"
    by (simp only: round_half_even_of_int)
  then have "real_of_int (round_half_even (x / 2 powi ?e)) \<le> 2 powi 53"
    by (metis of_int_le_iff of_int_numeral of_int_power power_int_numeral)
  then show ?thesis
    using two_powi_pos[of ?e] by (simp add: ideal64_def two_powi_add mult.commute)
qed

lemma ideal64_ge_bottom:
  assumes "0 < x" and "- 1074 < exponent64 x"
  shows "2 powi (exponent64 x + 52) \<le> ideal64 x"
proof -
  let ?e = "exponent64 x"
  have "2 powi (?e + 52) \<le> x" using exponent64_lower[of x] assms by simp
  then have "2 powi 52 \<le> x / 2 powi ?e"
    using two_powi_pos[of ?e] by (simp add: two_powi_add field_simps)
  then have "round_half_even (of_int (2 ^ 52)) \<le> round_half_even (x / 2 powi ?e)"
    by (intro round_half_even_mono) simp
  then have "2 ^ 52 \<le> round_half_even (x / 2 powi ?e)"
    by (simp only: round_half_even_of_int)
  then have "2 powi 52 \<le> real_of_int (round_half_even (x / 2 powi ?e))"
    by (metis of_int_le_iff of_int_numeral of_int_power power_int_numeral)
  then show ?thesis
    using two_powi_pos[of ?e] by (simp add: ideal64_def two_powi_add mult.commute)
qed

lemma ideal64_mono:
  assumes "0 < x" and "x \<le> y"
  shows "ideal64 x \<le> ideal64 y"
proof (cases "exponent64 x = exponent64 y")
  case True
  have "x / 2 powi exponent64 y \<le> y / 2 powi exponent64 y"
    using assms(2) two_powi_pos[of "exponent64 y"] by (simp add: divide_right_mono)
  then have "round_half_even (x / 2 powi exponent64 y) \<le> round_half_even (y / 2 powi exponent64 y)"
    by (rule round_half_even_mono)
  then show ?thesis
    using two_powi_pos[of "exponent64 y"] by (simp add: ideal64_def True)
next
  case False
  then have lt: "exponent64 x < exponent64 y" using exponent64_mono[OF assms] by simp
  have y: "0 < y" using assms by simp
  have "ideal64 x \<le> 2 powi (exponent64 x + 53)" by (rule ideal64_le_top[OF assms(1)])
  also have "\<dots> \<le> 2 powi (exponent64 y + 52)" using lt by (intro two_powi_mono) simp
  also have "\<dots> \<le> ideal64 y"
    using lt exponent64_ge[of x] by (intro ideal64_ge_bottom[OF y]) simp
  finally show ?thesis .
qed

lemma rnd64_mono_nonneg:
  assumes "0 \<le> x" and "x \<le> y" and "rnd64 y = Fin b"
  obtains a where "rnd64 x = Fin a" and "0 \<le> a" and "a \<le> b"
proof (cases "x = 0")
  case True
  have "0 \<le> b"
    using assms(1,2,3) ideal64_nonneg[of y] by (auto simp: rnd64_def split: if_splits)
  with True that[of 0] show ?thesis by (simp add: rnd64_def)
next
  case False
  then have x: "0 < x" and y: "0 < y" using assms by simp_all
  from assms(3) y have b: "b = ideal64 y" and small: "\<not> 2 ^ 1024 \<le> \<bar>ideal64 y\<bar>"
    by (auto simp: rnd64_def split: if_splits)
  have le: "ideal64 x \<le> ideal64 y" by (rule ideal64_mono[OF x assms(2)])
  have nn: "0 \<le> ideal64 x" using x by (intro ideal64_nonneg) simp
  from le nn small have "\<not> 2 ^ 1024 \<le> \<bar>ideal64 x\<bar>" by simp
  then have "rnd64 x = Fin (ideal64 x)" using x by (simp add: rnd64_def)
  with nn le b that show ?thesis by blast
qed


lemma two_powi_less_imp: "(2::real) powi a \<le> x \<Longrightarrow> x < 2 powi b \<Longrightarrow> a < b"
proof (rule ccontr)
  assume "2 powi a \<le> x" "x < 2 powi b" "\<not> a < b"
  then have "(2::real) powi b \<le> 2 powi a" by (intro two_powi_mono) simp
  with \<open>2 powi a \<le> x\<close> \<open>x < 2 powi b\<close> show False by linarith
qed

lemma exponent64_le:
  assumes "x \<noteq> 0" and "\<bar>x\<bar> < 2 powi (e + 53)" and "- 1074 \<le> e"
  shows "exponent64 x \<le> e"
proof -
  have pos: "0 < \<bar>x\<bar>" using assms by simp
  have "\<lfloor>log 2 \<bar>x\<bar>\<rfloor> < e + 53"
    using two_powi_less_imp[OF floor_log2_bounds(1)[OF pos] assms(2)] .
  then show ?thesis using assms(3) by (simp add: exponent64_def)
qed

lemma exponent64_eq:
  assumes "x \<noteq> 0" and "2 powi (e + 52) \<le> \<bar>x\<bar>" and "\<bar>x\<bar> < 2 powi (e + 53)"
    and "- 1074 \<le> e"
  shows "exponent64 x = e"
proof -
  have pos: "0 < \<bar>x\<bar>" using assms by simp
  have "\<lfloor>log 2 \<bar>x\<bar>\<rfloor> = e + 52"
    using floor_log2_iff[OF pos, of "e + 52"] assms(2,3) by (simp add: add.commute add.left_commute)
  then show ?thesis using assms(4) by (simp add: exponent64_def)
qed

lemma ideal64_exact:
  assumes "- 1074 \<le> e" and "\<bar>m\<bar> < 2 ^ 53" and "m \<noteq> 0"
  shows "ideal64 (of_int m * 2 powi e) = of_int m * 2 powi e"
proof -
  let ?x = "real_of_int m * 2 powi e"
  have nz: "?x \<noteq> 0" using assms(3) by simp
  have "\<bar>real_of_int m\<bar> < 2 powi 53"
    using assms(2) by (metis of_int_abs of_int_less_iff of_int_numeral of_int_power power_int_numeral)
  then have "\<bar>?x\<bar> < 2 powi (e + 53)"
    using two_powi_pos[of e] by (simp add: abs_mult two_powi_add mult.commute)
  then have le: "exponent64 ?x \<le> e" by (rule exponent64_le[OF nz _ assms(1)])
  define k where "k = nat (e - exponent64 ?x)"
  have e: "e = exponent64 ?x + int k" using le by (simp add: k_def)
  have "2 powi e = (2::real) powi exponent64 ?x * 2 ^ k"
    by (subst e) (simp add: two_powi_add)
  then have q: "?x / 2 powi exponent64 ?x = of_int (m * 2 ^ k)"
    using two_powi_pos[of "exponent64 ?x"] by (simp add: field_simps)
  have "ideal64 ?x = of_int (m * 2 ^ k) * 2 powi exponent64 ?x"
    unfolding ideal64_def q round_half_even_of_int ..
  also have "\<dots> = of_int m * (2 powi exponent64 ?x * 2 ^ k)" by simp
  also have "\<dots> = ?x" using \<open>2 powi e = (2::real) powi exponent64 ?x * 2 ^ k\<close> by simp
  finally show ?thesis .
qed

lemma rnd64_exact:
  assumes "- 1074 \<le> e" and "\<bar>m\<bar> < 2 ^ 53" and "\<bar>real_of_int m * 2 powi e\<bar> < 2 ^ 1024"
  shows "rnd64 (of_int m * 2 powi e) = Fin (of_int m * 2 powi e)"
proof (cases "m = 0")
  case True
  then show ?thesis by (simp add: rnd64_def)
next
  case False
  then show ?thesis
    using ideal64_exact[OF assms(1,2) False] assms(3) by (simp add: rnd64_def)
qed

lemma rnd64_of_int:
  assumes "\<bar>m\<bar> < 2 ^ 53"
  shows "rnd64 (of_int m) = Fin (of_int m)"
proof -
  have "\<bar>real_of_int m\<bar> < 2 ^ 53"
    using assms by (metis of_int_abs of_int_less_iff of_int_numeral of_int_power)
  then have "\<bar>real_of_int m * 2 powi 0\<bar> < 2 ^ 1024" by simp
  from rnd64_exact[OF _ assms this] show ?thesis by simp
qed

lemma rnd64_eval:
  assumes "x \<noteq> 0" and "2 powi (e + 52) \<le> \<bar>x\<bar>" and "\<bar>x\<bar> < 2 powi (e + 53)"
    and "- 1074 \<le> e" and "round_half_even (x / 2 powi e) = m"
    and "\<bar>real_of_int m * 2 powi e\<bar> < 2 ^ 1024"
  shows "rnd64 x = Fin (of_int m * 2 powi e)"
  using assms(1,5,6) exponent64_eq[OF assms(1-4)] by (simp add: rnd64_def ideal64_def)

lemma rnd64_simple [simp]: "rnd64 0 = Fin 0" "rnd64 1 = Fin 1" "rnd64 100 = Fin 100"
  using rnd64_of_int[of 0] rnd64_of_int[of 1] rnd64_of_int[of 100] by simp_all

section \<open>Facts about the normalisation in machine arithmetic\<close>

lemma rnd64_two_powi:
  assumes "- 1074 \<le> e" and "e < 1024"
  shows "rnd64 (2 powi e) = Fin (2 powi e)"
proof -
  have "(2::real) powi e < 2 powi 1024"
    using assms(2) by (intro power_int_strict_increasing) simp_all
  then have "\<bar>real_of_int 1 * 2 powi e\<bar> < 2 ^ 1024"
    using two_powi_pos[of e] by simp
  from rnd64_exact[OF assms(1) _ this] show ?thesis by simp
qed

lemma is_double_multiple:
  assumes "is_double r"
  obtains k :: int where "r = of_int k * 2 powi (- 1074)"
proof (cases "r = 0")
  case True
  then show ?thesis using that[of 0] by simp
next
  case False
  with assms have r: "r = ideal64 r"
    by (auto simp: is_double_def rnd64_def split: if_splits)
  define n where "n = nat (exponent64 r + 1074)"
  have e: "exponent64 r = - 1074 + int n" using exponent64_ge[of r] by (simp add: n_def)
  have "2 powi exponent64 r = (2::real) powi (- 1074) * 2 ^ n"
    by (subst e) (simp only: two_powi_add power_int_of_nat)
  then have "ideal64 r
      = of_int (round_half_even (r / 2 powi exponent64 r) * 2 ^ n) * 2 powi (- 1074)"
    by (simp add: ideal64_def)
  with r that show ?thesis by metis
qed

lemma doubles_apart:
  assumes "is_double a" and "is_double b" and "a < b"
  shows "2 powi (- 1074) \<le> b - a"
proof -
  obtain k where a: "a = of_int k * 2 powi (- 1074)" using is_double_multiple[OF assms(1)] .
  obtain l where b: "b = of_int l * 2 powi (- 1074)" using is_double_multiple[OF assms(2)] .
  have "real_of_int k < real_of_int l"
    using assms(3) two_powi_pos[of "- 1074"] unfolding a b by (simp add: mult_less_cancel_right)
  then have "k + 1 \<le> l" by simp
  then have "real_of_int k + 1 \<le> real_of_int l" by linarith
  then have "(real_of_int k + 1) * 2 powi (- 1074) \<le> real_of_int l * 2 powi (- 1074)"
    using two_powi_pos[of "- 1074"] by (simp add: mult_le_cancel_right)
  then show ?thesis unfolding a b by (simp add: algebra_simps)
qed

lemma rnd64_positive:
  assumes "2 powi (- 1074) \<le> x" and "rnd64 x = Fin d"
  shows "0 < d"
proof -
  have "0 \<le> (2::real) powi (- 1074)" using two_powi_pos[of "- 1074"] by simp
  from rnd64_mono_nonneg[OF this assms(1) assms(2)]
  obtain a where "rnd64 (2 powi (- 1074)) = Fin a" and "a \<le> d" by blast
  moreover have "rnd64 (2 powi (- 1074)) = Fin (2 powi (- 1074))"
    by (rule rnd64_two_powi) simp_all
  ultimately show ?thesis using two_powi_pos[of "- 1074"] by (simp add: order_less_le_trans)
qed

text \<open>The quotient times 100, for a numerator between zero and the divisor.\<close>

lemma scale64_range:
  assumes "0 \<le> n" and "n \<le> d" and "0 < d"
  obtains r where "f64_mul (f64_div (Fin n) (Fin d)) (Fin 100) = Fin r"
    and "0 \<le> r" and "r \<le> 100"
proof -
  have q1: "0 \<le> n / d" "n / d \<le> 1" using assms by simp_all
  obtain q where q: "rnd64 (n / d) = Fin q" "0 \<le> q" "q \<le> 1"
    using rnd64_mono_nonneg[OF q1, of 1] by auto
  have "0 \<le> q * 100" "q * 100 \<le> 100" using q by simp_all
  then obtain r where r: "rnd64 (q * 100) = Fin r" "0 \<le> r" "r \<le> 100"
    using rnd64_mono_nonneg[of "q * 100" 100 100] by auto
  have "f64_mul (f64_div (Fin n) (Fin d)) (Fin 100) = Fin r"
    using assms(3) q(1) r(1) by simp
  with r that show ?thesis by blast
qed

lemma scale64_mono:
  assumes "0 \<le> n" and "n \<le> n'" and "n' \<le> d" and "0 < d"
    and "f64_mul (f64_div (Fin n) (Fin d)) (Fin 100) = Fin r"
    and "f64_mul (f64_div (Fin n') (Fin d)) (Fin 100) = Fin r'"
  shows "r \<le> r'"
proof -
  have q1: "0 \<le> n' / d" "n' / d \<le> 1" using assms by simp_all
  obtain q' where q': "rnd64 (n' / d) = Fin q'" "0 \<le> q'" "q' \<le> 1"
    using rnd64_mono_nonneg[OF q1, of 1] by auto
  have "0 \<le> n / d" "n / d \<le> n' / d" using assms by (simp_all add: divide_right_mono)
  then obtain q where q: "rnd64 (n / d) = Fin q" "0 \<le> q" "q \<le> q'"
    using rnd64_mono_nonneg[of "n / d" "n' / d" q'] q'(1) by auto
  have r': "rnd64 (q' * 100) = Fin r'" using assms(4,6) q'(1) by simp
  have r: "rnd64 (q * 100) = Fin r" using assms(4,5) q(1) by simp
  have "0 \<le> q * 100" "q * 100 \<le> q' * 100" using q by simp_all
  then obtain a where "rnd64 (q * 100) = Fin a" "a \<le> r'"
    using rnd64_mono_nonneg[of "q * 100" "q' * 100" r'] r' by auto
  with r show ?thesis by simp
qed

lemma scale64_ends:
  assumes "d \<noteq> 0"
  shows "f64_mul (f64_div (Fin 0) (Fin d)) (Fin 100) = Fin 0"
    and "f64_mul (f64_div (Fin d) (Fin d)) (Fin 100) = Fin 100"
  using assms by simp_all

lemma wrap64_id: "is_int64 k \<Longrightarrow> wrap64 k = k"
  by (simp add: wrap64_def is_int64_def)

lemma f64_sub_Fin: "f64_sub (Fin a) (Fin b) = rnd64 (a - b)"
  by (simp add: f64_sub_def)

lemma rnd64_int_finite:
  assumes "0 \<le> k" and "k < 2 ^ 63"
  obtains d where "rnd64 (of_int k) = Fin d" and "0 \<le> d"
proof -
  have "real_of_int k \<le> 2 powi 63"
    using assms(2) by (metis less_le of_int_le_iff of_int_numeral of_int_power power_int_numeral)
  moreover have "rnd64 (2 powi 63) = Fin (2 powi 63)" by (rule rnd64_two_powi) simp_all
  moreover have "0 \<le> real_of_int k" using assms(1) by simp
  ultimately show ?thesis using rnd64_mono_nonneg[of "of_int k" "2 powi 63" "2 powi 63"] that
    by blast
qed

lemma Min_of_int: "ks \<noteq> [] \<Longrightarrow> Min (real_of_int ` set ks) = of_int (Min (set ks))"
  using mono_Min_commute[of real_of_int "set ks"] by (simp add: mono_def)

lemma Max_of_int: "ks \<noteq> [] \<Longrightarrow> Max (real_of_int ` set ks) = of_int (Max (set ks))"
  using mono_Max_commute[of real_of_int "set ks"] by (simp add: mono_def)

lemma normalize64_shape:
  assumes "holds s rs" and "rs \<noteq> []" and "no_overflow s"
  obtains D where "rnd64 (Max (set rs) - Min (set rs)) = Fin D"
    and "normalize_ascending64 s =
           map (\<lambda>r. f64_mul (f64_div (rnd64 (r - Min (set rs))) (Fin D)) (Fin 100)) rs"
    and "normalize_descending64 s =
           map (\<lambda>r. f64_mul (f64_div (rnd64 (Max (set rs) - r)) (Fin D)) (Fin 100)) rs"
    and "Min (set rs) < Max (set rs) \<Longrightarrow> 0 < D"
proof (cases s)
  case (Float64 vs)
  with assms(1) have vs: "vs = map Fin rs" and dbl: "list_all is_double rs" by simp_all
  have mn: "min_series vs = Fin (Min (set rs))" and mx: "max_series vs = Fin (Max (set rs))"
    using assms(2) vs by (simp_all add: min_series_Fin max_series_Fin)
  from assms(3) Float64 obtain D where D: "rnd64 (Max (set rs) - Min (set rs)) = Fin D"
    by (auto simp: mn mx f64_sub_Fin split: pyfloat.splits)
  have a: "normalize_ascending64 s =
           map (\<lambda>r. f64_mul (f64_div (rnd64 (r - Min (set rs))) (Fin D)) (Fin 100)) rs"
    by (simp add: Float64 vs[symmetric] mn mx f64_sub_Fin D) (simp add: vs f64_sub_Fin o_def)
  have d: "normalize_descending64 s =
           map (\<lambda>r. f64_mul (f64_div (rnd64 (Max (set rs) - r)) (Fin D)) (Fin 100)) rs"
    by (simp add: Float64 vs[symmetric] mn mx f64_sub_Fin D) (simp add: vs f64_sub_Fin o_def)
  have pos: "0 < D" if lt: "Min (set rs) < Max (set rs)"
  proof -
    have "Min (set rs) \<in> set rs" "Max (set rs) \<in> set rs" using assms(2) by simp_all
    then have "is_double (Min (set rs))" "is_double (Max (set rs))"
      using dbl by (simp_all add: list_all_iff)
    from doubles_apart[OF this lt] D show ?thesis by (rule rnd64_positive)
  qed
  from D a d pos that show ?thesis by blast
next
  case (Int64 ks)
  with assms(1) have rs: "rs = map of_int ks" and rng: "list_all is_int64 ks" by simp_all
  from assms(2) rs obtain k ks' where ks: "ks = k # ks'" by (cases ks) auto
  have ne: "ks \<noteq> []" using ks by simp
  have fmin: "fold min ks' k = Min (set ks)" and fmax: "fold max ks' k = Max (set ks)"
    unfolding ks by (simp_all add: Min.set_eq_fold Max.set_eq_fold del: set_simps)
  have mn: "Min (set rs) = of_int (Min (set ks))" and mx: "Max (set rs) = of_int (Max (set ks))"
    unfolding rs using ne by (simp_all add: Min_of_int Max_of_int)
  have small: "Max (set ks) - Min (set ks) < 2 ^ 63"
    using assms(3) unfolding Int64 ks no_overflow.simps fmin[unfolded ks] fmax[unfolded ks]
    by (simp add: ks)
  have between: "Min (set ks) \<le> v \<and> v \<le> Max (set ks)" if "v \<in> set ks" for v
    using that by simp
  have w: "wrap64 (v - Min (set ks)) = v - Min (set ks)"
    "wrap64 (Max (set ks) - v) = Max (set ks) - v" if "v \<in> set ks" for v
    using between[OF that] small by (simp_all add: wrap64_id is_int64_def)
  have wd: "wrap64 (Max (set ks) - Min (set ks)) = Max (set ks) - Min (set ks)"
    using w(1)[of "Max (set ks)"] ne by simp
  have nonneg: "0 \<le> Max (set ks) - Min (set ks)"
    using between[of "Max (set ks)"] ne by simp
  obtain D where D0: "rnd64 (of_int (Max (set ks) - Min (set ks))) = Fin D"
    using rnd64_int_finite[OF nonneg small] by blast
  then have D: "rnd64 (Max (set rs) - Min (set rs)) = Fin D" by (simp add: mn mx)
  have D1: "rnd64 (real_of_int (Max (set ks)) - real_of_int (Min (set ks))) = Fin D"
    using D0 by simp
  have a: "normalize_ascending64 s =
           map (\<lambda>r. f64_mul (f64_div (rnd64 (r - Min (set rs))) (Fin D)) (Fin 100)) rs"
    unfolding Int64 ks normalize_ascending64.simps fmin[unfolded ks] fmax[unfolded ks]
    unfolding ks[symmetric] rs mn[unfolded rs] mx[unfolded rs]
    by (simp add: w wd int64_to_float_def D1 cong: map_cong)
  have d: "normalize_descending64 s =
           map (\<lambda>r. f64_mul (f64_div (rnd64 (Max (set rs) - r)) (Fin D)) (Fin 100)) rs"
    unfolding Int64 ks normalize_descending64.simps fmin[unfolded ks] fmax[unfolded ks]
    unfolding ks[symmetric] rs mn[unfolded rs] mx[unfolded rs]
    by (simp add: w wd int64_to_float_def D1 cong: map_cong)
  have pos: "0 < D" if lt: "Min (set rs) < Max (set rs)"
  proof -
    have "Min (set ks) < Max (set ks)" using lt unfolding mn mx by simp
    then have "1 \<le> real_of_int (Max (set ks) - Min (set ks))" by linarith
    moreover have "(2::real) powi (- 1074) \<le> 1"
      by (simp add: power_int_minus_divide)
    ultimately have "2 powi (- 1074) \<le> real_of_int (Max (set ks) - Min (set ks))" by linarith
    from rnd64_positive[OF this D0] show ?thesis .
  qed
  from D a d pos that show ?thesis by blast
qed

lemma normalize64_nth:
  assumes "holds s rs" and "no_overflow s" and "Min (set rs) < Max (set rs)"
    and "i < length rs"
  obtains D N M where "rnd64 (Max (set rs) - Min (set rs)) = Fin D" and "0 < D"
    and "rnd64 (rs ! i - Min (set rs)) = Fin N" and "0 \<le> N" and "N \<le> D"
    and "rnd64 (Max (set rs) - rs ! i) = Fin M" and "0 \<le> M" and "M \<le> D"
    and "normalize_ascending64 s ! i = f64_mul (f64_div (Fin N) (Fin D)) (Fin 100)"
    and "normalize_descending64 s ! i = f64_mul (f64_div (Fin M) (Fin D)) (Fin 100)"
proof -
  have ne: "rs \<noteq> []" using assms(4) by auto
  obtain D where D: "rnd64 (Max (set rs) - Min (set rs)) = Fin D"
    and a: "normalize_ascending64 s =
           map (\<lambda>r. f64_mul (f64_div (rnd64 (r - Min (set rs))) (Fin D)) (Fin 100)) rs"
    and d: "normalize_descending64 s =
           map (\<lambda>r. f64_mul (f64_div (rnd64 (Max (set rs) - r)) (Fin D)) (Fin 100)) rs"
    and pos: "0 < D"
    using normalize64_shape[OF assms(1) ne assms(2)] assms(3) by blast
  have mem: "rs ! i \<in> set rs" using assms(4) by simp
  then have b: "Min (set rs) \<le> rs ! i" "rs ! i \<le> Max (set rs)" by simp_all
  obtain N where N: "rnd64 (rs ! i - Min (set rs)) = Fin N" "0 \<le> N" "N \<le> D"
    using rnd64_mono_nonneg[of "rs ! i - Min (set rs)" "Max (set rs) - Min (set rs)" D] b D
    by auto
  obtain M where M: "rnd64 (Max (set rs) - rs ! i) = Fin M" "0 \<le> M" "M \<le> D"
    using rnd64_mono_nonneg[of "Max (set rs) - rs ! i" "Max (set rs) - Min (set rs)" D] b D
    by auto
  have "normalize_ascending64 s ! i = f64_mul (f64_div (Fin N) (Fin D)) (Fin 100)"
    using assms(4) by (simp add: a N(1))
  moreover have "normalize_descending64 s ! i = f64_mul (f64_div (Fin M) (Fin D)) (Fin 100)"
    using assms(4) by (simp add: d M(1))
  ultimately show ?thesis using that D pos N M by blast
qed

lemma length_normalize64:
  assumes "holds s rs"
  shows "length (normalize_ascending64 s) = length rs"
    and "length (normalize_descending64 s) = length rs"
proof -
  show "length (normalize_ascending64 s) = length rs"
  proof (cases s)
    case (Float64 vs)
    then show ?thesis using assms by simp
  next
    case (Int64 ks)
    then show ?thesis using assms by (cases ks) simp_all
  qed
  show "length (normalize_descending64 s) = length rs"
  proof (cases s)
    case (Float64 vs)
    then show ?thesis using assms by simp
  next
    case (Int64 ks)
    then show ?thesis using assms by (cases ks) simp_all
  qed
qed

lemma normalize64_in_range:
  assumes "holds s rs" and "no_overflow s" and "Min (set rs) < Max (set rs)"
    and "i < length rs"
  shows "in_0_100 (normalize_ascending64 s ! i)" and "in_0_100 (normalize_descending64 s ! i)"
    and "rs ! i = Min (set rs) \<Longrightarrow> normalize_ascending64 s ! i = Fin 0"
    and "rs ! i = Min (set rs) \<Longrightarrow> normalize_descending64 s ! i = Fin 100"
    and "rs ! i = Max (set rs) \<Longrightarrow> normalize_ascending64 s ! i = Fin 100"
    and "rs ! i = Max (set rs) \<Longrightarrow> normalize_descending64 s ! i = Fin 0"
    and "normalize_ascending64 s ! i =
           f64_mul (f64_div (rnd64 (rs ! i - Min (set rs)))
                            (rnd64 (Max (set rs) - Min (set rs)))) (Fin 100)"
    and "normalize_descending64 s ! i =
           f64_mul (f64_div (rnd64 (Max (set rs) - rs ! i))
                            (rnd64 (Max (set rs) - Min (set rs)))) (Fin 100)"
proof -
  obtain D N M where D: "rnd64 (Max (set rs) - Min (set rs)) = Fin D" and pos: "0 < D"
    and N: "rnd64 (rs ! i - Min (set rs)) = Fin N" "0 \<le> N" "N \<le> D"
    and M: "rnd64 (Max (set rs) - rs ! i) = Fin M" "0 \<le> M" "M \<le> D"
    and a: "normalize_ascending64 s ! i = f64_mul (f64_div (Fin N) (Fin D)) (Fin 100)"
    and d: "normalize_descending64 s ! i = f64_mul (f64_div (Fin M) (Fin D)) (Fin 100)"
    using normalize64_nth[OF assms] by blast
  obtain r where r: "f64_mul (f64_div (Fin N) (Fin D)) (Fin 100) = Fin r" "0 \<le> r" "r \<le> 100"
    using scale64_range[OF N(2,3) pos] by blast
  obtain t where t: "f64_mul (f64_div (Fin M) (Fin D)) (Fin 100) = Fin t" "0 \<le> t" "t \<le> 100"
    using scale64_range[OF M(2,3) pos] by blast
  show "in_0_100 (normalize_ascending64 s ! i)" unfolding a r(1) using r by (simp add: in_0_100_def)
  show "in_0_100 (normalize_descending64 s ! i)" unfolding d t(1) using t by (simp add: in_0_100_def)
  have nz: "D \<noteq> 0" using pos by simp
  show "normalize_ascending64 s ! i = Fin 0" if "rs ! i = Min (set rs)"
  proof -
    have "N = 0" using N(1) that by simp
    then show ?thesis unfolding a using scale64_ends(1)[OF nz] by simp
  qed
  show "normalize_descending64 s ! i = Fin 100" if "rs ! i = Min (set rs)"
  proof -
    have "M = D" using M(1) D that by simp
    then show ?thesis unfolding d using scale64_ends(2)[OF nz] by simp
  qed
  show "normalize_ascending64 s ! i = Fin 100" if "rs ! i = Max (set rs)"
  proof -
    have "N = D" using N(1) D that by simp
    then show ?thesis unfolding a using scale64_ends(2)[OF nz] by simp
  qed
  show "normalize_descending64 s ! i = Fin 0" if "rs ! i = Max (set rs)"
  proof -
    have "M = 0" using M(1) that by simp
    then show ?thesis unfolding d using scale64_ends(1)[OF nz] by simp
  qed
  show "normalize_ascending64 s ! i =
           f64_mul (f64_div (rnd64 (rs ! i - Min (set rs)))
                            (rnd64 (Max (set rs) - Min (set rs)))) (Fin 100)"
    by (simp only: a N(1) D)
  show "normalize_descending64 s ! i =
           f64_mul (f64_div (rnd64 (Max (set rs) - rs ! i))
                            (rnd64 (Max (set rs) - Min (set rs)))) (Fin 100)"
    by (simp only: d M(1) D)
qed

lemma normalize64_monotone:
  assumes "holds s rs" and "no_overflow s" and "Min (set rs) < Max (set rs)"
    and "i < length rs" and "j < length rs" and "rs ! i \<le> rs ! j"
  shows "fl_ge (normalize_ascending64 s ! j) (normalize_ascending64 s ! i)"
    and "fl_ge (normalize_descending64 s ! i) (normalize_descending64 s ! j)"
proof -
  obtain D N M where D: "rnd64 (Max (set rs) - Min (set rs)) = Fin D" and pos: "0 < D"
    and N: "rnd64 (rs ! i - Min (set rs)) = Fin N" "0 \<le> N" "N \<le> D"
    and M: "rnd64 (Max (set rs) - rs ! i) = Fin M" "0 \<le> M" "M \<le> D"
    and a: "normalize_ascending64 s ! i = f64_mul (f64_div (Fin N) (Fin D)) (Fin 100)"
    and d: "normalize_descending64 s ! i = f64_mul (f64_div (Fin M) (Fin D)) (Fin 100)"
    using normalize64_nth[OF assms(1,2,3,4)] by blast
  obtain D' N' M' where D': "rnd64 (Max (set rs) - Min (set rs)) = Fin D'"
    and N': "rnd64 (rs ! j - Min (set rs)) = Fin N'" "0 \<le> N'" "N' \<le> D'"
    and M': "rnd64 (Max (set rs) - rs ! j) = Fin M'" "0 \<le> M'" "M' \<le> D'"
    and a': "normalize_ascending64 s ! j = f64_mul (f64_div (Fin N') (Fin D')) (Fin 100)"
    and d': "normalize_descending64 s ! j = f64_mul (f64_div (Fin M') (Fin D')) (Fin 100)"
    using normalize64_nth[OF assms(1,2,3,5)] by blast
  have DD: "D' = D" using D D' by simp
  have bi: "Min (set rs) \<le> rs ! i" using assms(4) by simp
  have bj: "rs ! j \<le> Max (set rs)" using assms(5) by simp
  have NN: "N \<le> N'"
    using rnd64_mono_nonneg[of "rs ! i - Min (set rs)" "rs ! j - Min (set rs)" N'] N'(1) N(1)
      bi assms(6) by auto
  have MM: "M' \<le> M"
    using rnd64_mono_nonneg[of "Max (set rs) - rs ! j" "Max (set rs) - rs ! i" M] M'(1) M(1)
      bj assms(6) by auto
  obtain r where r: "f64_mul (f64_div (Fin N) (Fin D)) (Fin 100) = Fin r"
    using scale64_range[OF N(2,3) pos] by blast
  obtain r' where r': "f64_mul (f64_div (Fin N') (Fin D)) (Fin 100) = Fin r'"
    using scale64_range[OF N'(2) _ pos] N'(3) DD by blast
  obtain t where t: "f64_mul (f64_div (Fin M) (Fin D)) (Fin 100) = Fin t"
    using scale64_range[OF M(2,3) pos] by blast
  obtain t' where t': "f64_mul (f64_div (Fin M') (Fin D)) (Fin 100) = Fin t'"
    using scale64_range[OF M'(2) _ pos] M'(3) DD by blast
  have "r \<le> r'" using scale64_mono[OF N(2) NN _ pos r r'] N'(3) DD by simp
  then show "fl_ge (normalize_ascending64 s ! j) (normalize_ascending64 s ! i)"
    unfolding a a' DD r r' by (simp add: fl_ge_def)
  have "t' \<le> t" using scale64_mono[OF M'(2) MM M(3) pos t' t] .
  then show "fl_ge (normalize_descending64 s ! i) (normalize_descending64 s ! j)"
    unfolding d d' DD t t' by (simp add: fl_ge_def)
qed

section \<open>Evaluating the machine arithmetic\<close>

lemma rnd64_numeral:
  "(numeral n :: int) < 2 ^ 53 \<Longrightarrow> rnd64 (numeral n) = Fin (numeral n)"
  using rnd64_of_int[of "numeral n"] by simp

lemma rnd64_neg_numeral:
  "(numeral n :: int) < 2 ^ 53 \<Longrightarrow> rnd64 (- numeral n) = Fin (- numeral n)"
  using rnd64_of_int[of "- numeral n"] by simp

lemma rnd64_half: "rnd64 (1 / 2) = Fin (1 / 2)"
  using rnd64_two_powi[of "- 1"] by (simp add: power_int_minus_divide)

lemma rnd64_neg_one: "rnd64 (- 1) = Fin (- 1)"
  using rnd64_of_int[of "- 1"] by simp

lemma rnd64_two_63: "rnd64 9223372036854775808 = Fin 9223372036854775808"
  using rnd64_two_powi[of 63] by simp

lemma rnd64_neg_two_63: "rnd64 (- 9223372036854775808) = Fin (- 9223372036854775808)"
  using rnd64_exact[of 63 "- 1"] by simp

lemma rnd64_100_two_63: "rnd64 922337203685477580800 = Fin 922337203685477580800"
  using rnd64_exact[of 65 25] by simp

lemmas eval64 = min_series_def max_series_def notna_def fl_min2_def fl_max2_def f64_sub_def
  wrap64_def int64_to_float_def rnd64_numeral rnd64_neg_numeral rnd64_half rnd64_neg_one
  inf_of_sign_def

lemma ideal64_two_1024: "ideal64 (2 ^ 1024) = 2 ^ 1024"
proof -
  have "(2::real) ^ 1024 = of_int (2 ^ 52) * 2 powi 972"
    by (simp add: power_int_add[symmetric] flip: power_add)
  moreover have "ideal64 (of_int (2 ^ 52) * 2 powi 972) = of_int (2 ^ 52) * 2 powi 972"
    by (rule ideal64_exact) simp_all
  ultimately show ?thesis by simp
qed

lemma rnd64_overflow:
  assumes "2 ^ 1024 \<le> x"
  shows "rnd64 x = PInf"
proof -
  have pos: "0 < x" using assms by (simp add: order_less_le_trans)
  have "ideal64 (2 ^ 1024) \<le> ideal64 x" using assms by (intro ideal64_mono) simp_all
  then have "2 ^ 1024 \<le> \<bar>ideal64 x\<bar>" unfolding ideal64_two_1024 by simp
  then show ?thesis using pos by (simp add: rnd64_def)
qed

lemma rnd64_two_1023: "rnd64 (2 ^ 1023) = Fin (2 ^ 1023)"
  using rnd64_two_powi[of 1023] by simp

lemma normalize64_wrap_example:
  "normalize_ascending64 (Int64 [- (2 ^ 63), 0, 2 ^ 63 - 1])
     = [Fin 0, Fin (100 * 2 ^ 63), Fin 100]"
  by (simp add: eval64 rnd64_two_63 rnd64_neg_two_63 rnd64_100_two_63)

lemma normalize64_overflow_example:
  "normalize_ascending64 (Float64 [Fin (- (2 ^ 1023)), Fin 0, Fin (2 ^ 1023)])
     = [Fin 0, Fin 0, NaN]"
proof -
  let ?vs = "[Fin (- (2 ^ 1023)), Fin 0, Fin (2 ^ 1023)]"
  have mn: "min_series ?vs = Fin (- (2 ^ 1023))" and mx: "max_series ?vs = Fin (2 ^ 1023)"
    by (simp_all add: min_series_def max_series_def notna_def fl_min2_def fl_max2_def)
  have "(2::real) ^ 1024 \<le> 2 ^ 1023 - - (2 ^ 1023)" by simp
  then have d: "f64_sub (Fin (2 ^ 1023)) (Fin (- (2 ^ 1023))) = PInf"
    unfolding f64_sub_Fin by (rule rnd64_overflow)
  have a: "f64_sub (Fin (- (2 ^ 1023))) (Fin (- (2 ^ 1023))) = Fin 0"
    "f64_sub (Fin 0) (Fin (- (2 ^ 1023))) = Fin (2 ^ 1023)"
    unfolding f64_sub_Fin using rnd64_two_1023 by simp_all
  show ?thesis
    unfolding normalize_ascending64.simps mn mx list.map d a by simp
qed


section \<open>Normalisation of a column with two distinct values\<close>

text \<open>
  Claim C2 says that every normalised value of a column with max != min lies in
  [0, 100]. In the arithmetic of the machine it does not when \<open>max - min\<close> overflows.
  On the \<open>int64\<close> column \<open>-2^63, 0, 2^63 - 1\<close> the difference \<open>max - min\<close> wraps around
  to \<open>-1\<close> and the middle row is normalised to \<open>100 * 2^63\<close>; on the \<open>float64\<close>
  column \<open>-2^1023, 0, 2^1023\<close> the difference is infinite and the column is normalised
  to \<open>0, 0, NaN\<close>.
\<close>

theorem normalize_overflow_counterexample:
  "holds (Int64 [- (2 ^ 63), 0, 2 ^ 63 - 1]) [- (2 ^ 63), 0, 2 ^ 63 - 1]
   \<and> Max (set [- (2 ^ 63), 0, 2 ^ 63 - 1 :: real]) \<noteq> Min (set [- (2 ^ 63), 0, 2 ^ 63 - 1])
   \<and> normalize_ascending64 (Int64 [- (2 ^ 63), 0, 2 ^ 63 - 1])
       = [Fin 0, Fin (100 * 2 ^ 63), Fin 100]
   \<and> \<not> in_0_100 (Fin (100 * 2 ^ 63))
   \<and> normalize_ascending64 (Float64 [Fin (- (2 ^ 1023)), Fin 0, Fin (2 ^ 1023)])
       = [Fin 0, Fin 0, NaN]
   \<and> \<not> in_0_100 NaN"
proof -
  have "holds (Int64 [- (2 ^ 63), 0, 2 ^ 63 - 1]) [- (2 ^ 63), 0, 2 ^ 63 - 1]"
    by (simp add: is_int64_def)
  moreover have "Max (set [- (2 ^ 63), 0, 2 ^ 63 - 1 :: real])
      \<noteq> Min (set [- (2 ^ 63), 0, 2 ^ 63 - 1])"
    by simp
  moreover have "\<not> in_0_100 (Fin (100 * 2 ^ 63))" "\<not> in_0_100 NaN"
    by (simp_all add: in_0_100_def)
  ultimately show ?thesis
    using normalize64_wrap_example normalize64_overflow_example by blast
qed

text \<open>
  Claim C2 as amended. For every column of finite numbers of its dtype (\<open>int64\<close> or
  \<open>float64\<close>) with max != min whose difference \<open>max - min\<close> is computed without
  overflow, both normalisations keep the length of the column and every normalised
  value is a finite number in [0, 100]. The ascending value of \<open>v\<close> is
  \<open>(v - min) / (max - min) * 100\<close> and the descending one
  \<open>(max - v) / (max - min) * 100\<close>, each operation rounded to the nearest double; the
  minimum goes to exactly 0 (ascending) and 100 (descending), the maximum to exactly 100
  (ascending) and 0 (descending).
\<close>

theorem normalize64_range:
  assumes "holds s rs" and "rs \<noteq> []" and "Max (set rs) \<noteq> Min (set rs)"
    and "no_overflow s"
  shows "length (normalize_ascending64 s) = length rs
       \<and> length (normalize_descending64 s) = length rs
       \<and> (\<forall>i<length rs.
             in_0_100 (normalize_ascending64 s ! i)
           \<and> in_0_100 (normalize_descending64 s ! i)
           \<and> normalize_ascending64 s ! i
               = f64_mul (f64_div (rnd64 (rs ! i - Min (set rs)))
                                  (rnd64 (Max (set rs) - Min (set rs)))) (Fin 100)
           \<and> normalize_descending64 s ! i
               = f64_mul (f64_div (rnd64 (Max (set rs) - rs ! i))
                                  (rnd64 (Max (set rs) - Min (set rs)))) (Fin 100)
           \<and> (rs ! i = Min (set rs)
                \<longrightarrow> normalize_ascending64 s ! i = Fin 0
                  \<and> normalize_descending64 s ! i = Fin 100)
           \<and> (rs ! i = Max (set rs)
                \<longrightarrow> normalize_ascending64 s ! i = Fin 100
                  \<and> normalize_descending64 s ! i = Fin 0))"
proof -
  have lt: "Min (set rs) < Max (set rs)"
    using Min_le_Max_list[OF assms(2)] assms(3) by simp
  note r = normalize64_in_range[OF assms(1,4) lt]
  from length_normalize64[OF assms(1)] r show ?thesis by blast
qed

theorem normalize64_range_witness:
  "holds (Float64 [Fin 30, Fin 45, Fin 60]) [30, 45, 60]
   \<and> Max (set [30, 45, 60 :: real]) \<noteq> Min (set [30, 45, 60])
   \<and> no_overflow (Float64 [Fin 30, Fin 45, Fin 60])
   \<and> normalize_ascending64 (Float64 [Fin 30, Fin 45, Fin 60]) = [Fin 0, Fin 50, Fin 100]
   \<and> normalize_descending64 (Float64 [Fin 30, Fin 45, Fin 60]) = [Fin 100, Fin 50, Fin 0]
   \<and> in_0_100 (normalize_ascending64 (Float64 [Fin 30, Fin 45, Fin 60]) ! 1)
   \<and> holds (Int64 [30, 45, 60]) [30, 45, 60]
   \<and> no_overflow (Int64 [30, 45, 60])
   \<and> normalize_ascending64 (Int64 [30, 45, 60]) = [Fin 0, Fin 50, Fin 100]
   \<and> in_0_100 (normalize_ascending64 (Int64 [30, 45, 60]) ! 1)"
proof -
  have h: "holds (Float64 [Fin 30, Fin 45, Fin 60]) [30, 45, 60]"
    by (simp add: is_double_def rnd64_numeral)
  have hi: "holds (Int64 [30, 45, 60]) [30, 45, 60]" by (simp add: is_int64_def)
  have ne: "[30, 45, 60 :: real] \<noteq> []" by simp
  have d: "Max (set [30, 45, 60 :: real]) \<noteq> Min (set [30, 45, 60])" by simp
  have n: "no_overflow (Float64 [Fin 30, Fin 45, Fin 60])" by (simp add: eval64)
  have ni: "no_overflow (Int64 [30, 45, 60])" by simp
  have e: "normalize_ascending64 (Float64 [Fin 30, Fin 45, Fin 60]) = [Fin 0, Fin 50, Fin 100]"
    "normalize_descending64 (Float64 [Fin 30, Fin 45, Fin 60]) = [Fin 100, Fin 50, Fin 0]"
    "normalize_ascending64 (Int64 [30, 45, 60]) = [Fin 0, Fin 50, Fin 100]"
    by (simp_all add: eval64)
  have i: "1 < length [30, 45, 60 :: real]" by simp
  from normalize64_range[OF h ne d n] i
  have a: "in_0_100 (normalize_ascending64 (Float64 [Fin 30, Fin 45, Fin 60]) ! 1)" by blast
  from normalize64_range[OF hi ne d ni] i
  have b: "in_0_100 (normalize_ascending64 (Int64 [30, 45, 60]) ! 1)" by blast
  from h hi d n ni e a b show ?thesis by blast
qed

section \<open>Monotonicity of the normalised columns\<close>

lemma rnd64_near_1e17:
  "rnd64 99999999999999999 = Fin 100000000000000000"
  "rnd64 99999999999999998 = Fin 100000000000000000"
proof -
  have "rnd64 99999999999999999 = Fin (of_int 6250000000000000 * 2 powi 4)"
    by (rule rnd64_eval) (simp_all add: round_half_even_def Let_def)
  then show "rnd64 99999999999999999 = Fin 100000000000000000" by simp
  have "rnd64 99999999999999998 = Fin (of_int 6250000000000000 * 2 powi 4)"
    by (rule rnd64_eval) (simp_all add: round_half_even_def Let_def)
  then show "rnd64 99999999999999998 = Fin 100000000000000000" by simp
qed

text \<open>
  Claim C5 says that a strictly higher raw value gives a strictly higher normalised
  value. In the arithmetic of the machine two raw values can be too close for that: on
  the \<open>int64\<close> accident column \<open>1, 2, 10^17\<close> the differences \<open>10^17 - 1\<close> and
  \<open>10^17 - 2\<close> both become the double \<open>10^17\<close> when the division converts them, so the
  rows with 1 and 2 accidents are both normalised to exactly 100.
\<close>

theorem strict_monotone_counterexample:
  "holds (Int64 [1, 2, 10 ^ 17]) [1, 2, 10 ^ 17]
   \<and> Max (set [1, 2, 10 ^ 17 :: real]) \<noteq> Min (set [1, 2, 10 ^ 17])
   \<and> no_overflow (Int64 [1, 2, 10 ^ 17])
   \<and> [1, 2, 10 ^ 17 :: real] ! 0 < [1, 2, 10 ^ 17] ! 1
   \<and> normalize_descending64 (Int64 [1, 2, 10 ^ 17]) = [Fin 100, Fin 100, Fin 0]
   \<and> \<not> fl_less (normalize_descending64 (Int64 [1, 2, 10 ^ 17]) ! 1)
                 (normalize_descending64 (Int64 [1, 2, 10 ^ 17]) ! 0)"
proof -
  have e: "normalize_descending64 (Int64 [1, 2, 10 ^ 17]) = [Fin 100, Fin 100, Fin 0]"
    by (simp add: eval64 rnd64_near_1e17)
  have "holds (Int64 [1, 2, 10 ^ 17]) [1, 2, 10 ^ 17]" by (simp add: is_int64_def)
  moreover have "Max (set [1, 2, 10 ^ 17 :: real]) \<noteq> Min (set [1, 2, 10 ^ 17])" by simp
  moreover have "no_overflow (Int64 [1, 2, 10 ^ 17])" by simp
  moreover have "[1, 2, 10 ^ 17 :: real] ! 0 < [1, 2, 10 ^ 17] ! 1" by simp
  moreover have "\<not> fl_less (normalize_descending64 (Int64 [1, 2, 10 ^ 17]) ! 1)
                 (normalize_descending64 (Int64 [1, 2, 10 ^ 17]) ! 0)"
    unfolding e by simp
  ultimately show ?thesis using e by blast
qed

text \<open>
  Claim C5 as amended. For every dataset whose three raw columns hold finite numbers
  of their dtype, each with max != min and with \<open>max - min\<close> computed without
  overflow, and for any two rows: a strictly higher speed gives a normalised speed that
  is not lower, a strictly higher transit count gives a normalised transit value that is
  not lower, and strictly fewer accidents give a normalised accident value that is not
  lower. The order is kept but not strictly: raw values closer than the resolution of
  the doubles of the computation can receive the same normalised value.
\<close>

theorem normalized64_monotone:
  assumes "holds sp speeds" and "holds tr transits" and "holds ac accidents"
    and "Max (set speeds) \<noteq> Min (set speeds)"
    and "Max (set transits) \<noteq> Min (set transits)"
    and "Max (set accidents) \<noteq> Min (set accidents)"
    and "no_overflow sp" and "no_overflow tr" and "no_overflow ac"
    and "length transits = length speeds" and "length accidents = length speeds"
    and "i < length speeds" and "j < length speeds"
  shows "(speeds ! i < speeds ! j
            \<longrightarrow> fl_ge (normalize_ascending64 sp ! j) (normalize_ascending64 sp ! i))
       \<and> (transits ! i < transits ! j
            \<longrightarrow> fl_ge (normalize_ascending64 tr ! j) (normalize_ascending64 tr ! i))
       \<and> (accidents ! i < accidents ! j
            \<longrightarrow> fl_ge (normalize_descending64 ac ! i) (normalize_descending64 ac ! j))"
proof -
  have ne: "speeds \<noteq> []" "transits \<noteq> []" "accidents \<noteq> []" using assms(10-12) by auto
  have lt: "Min (set speeds) < Max (set speeds)" "Min (set transits) < Max (set transits)"
    "Min (set accidents) < Max (set accidents)"
    using Min_le_Max_list[OF ne(1)] Min_le_Max_list[OF ne(2)] Min_le_Max_list[OF ne(3)]
      assms(4,5,6) by simp_all
  have ij: "i < length transits" "j < length transits" "i < length accidents"
    "j < length accidents"
    using assms(10-13) by simp_all
  have s: "fl_ge (normalize_ascending64 sp ! j) (normalize_ascending64 sp ! i)"
    if "speeds ! i < speeds ! j"
    using normalize64_monotone(1)[OF assms(1,7) lt(1) assms(12,13)] that by simp
  have t: "fl_ge (normalize_ascending64 tr ! j) (normalize_ascending64 tr ! i)"
    if "transits ! i < transits ! j"
    using normalize64_monotone(1)[OF assms(2,8) lt(2) ij(1,2)] that by simp
  have a: "fl_ge (normalize_descending64 ac ! i) (normalize_descending64 ac ! j)"
    if "accidents ! i < accidents ! j"
    using normalize64_monotone(2)[OF assms(3,9) lt(3) ij(3,4)] that by simp
  from s t a show ?thesis by blast
qed

theorem normalized64_monotone_witness:
  "holds (Int64 [30, 60]) [30, 60] \<and> holds (Int64 [5, 15]) [5, 15]
   \<and> holds (Float64 [Fin 10, Fin 2]) [10, 2]
   \<and> Max (set [30, 60 :: real]) \<noteq> Min (set [30, 60])
   \<and> Max (set [5, 15 :: real]) \<noteq> Min (set [5, 15])
   \<and> Max (set [10, 2 :: real]) \<noteq> Min (set [10, 2])
   \<and> no_overflow (Int64 [30, 60]) \<and> no_overflow (Int64 [5, 15])
   \<and> no_overflow (Float64 [Fin 10, Fin 2])
   \<and> [30, 60 :: real] ! 0 < [30, 60] ! 1
   \<and> [5, 15 :: real] ! 0 < [5, 15] ! 1
   \<and> [10, 2 :: real] ! 1 < [10, 2] ! 0
   \<and> fl_ge (normalize_ascending64 (Int64 [30, 60]) ! 1)
             (normalize_ascending64 (Int64 [30, 60]) ! 0)
   \<and> fl_ge (normalize_ascending64 (Int64 [5, 15]) ! 1)
             (normalize_ascending64 (Int64 [5, 15]) ! 0)
   \<and> fl_ge (normalize_descending64 (Float64 [Fin 10, Fin 2]) ! 1)
             (normalize_descending64 (Float64 [Fin 10, Fin 2]) ! 0)
   \<and> normalize_descending64 (Float64 [Fin 10, Fin 2]) = [Fin 0, Fin 100]"
proof -
  have h: "holds (Int64 [30, 60]) [30, 60]" "holds (Int64 [5, 15]) [5, 15]"
    "holds (Float64 [Fin 10, Fin 2]) [10, 2]"
    by (simp_all add: is_int64_def is_double_def rnd64_numeral)
  have d: "Max (set [30, 60 :: real]) \<noteq> Min (set [30, 60])"
    "Max (set [5, 15 :: real]) \<noteq> Min (set [5, 15])"
    "Max (set [10, 2 :: real]) \<noteq> Min (set [10, 2])"
    by simp_all
  have n: "no_overflow (Int64 [30, 60])" "no_overflow (Int64 [5, 15])"
    "no_overflow (Float64 [Fin 10, Fin 2])"
    by (simp_all add: eval64)
  have l: "length [5, 15 :: real] = length [30, 60 :: real]"
    "length [10, 2 :: real] = length [30, 60 :: real]"
    by simp_all
  have i0: "0 < length [30, 60 :: real]" and i1: "1 < length [30, 60 :: real]" by simp_all
  have lt: "[30, 60 :: real] ! 0 < [30, 60] ! 1" "[5, 15 :: real] ! 0 < [5, 15] ! 1"
    "[10, 2 :: real] ! 1 < [10, 2] ! 0"
    by simp_all
  have e: "normalize_descending64 (Float64 [Fin 10, Fin 2]) = [Fin 0, Fin 100]"
    by (simp add: eval64)
  note up = normalized64_monotone[OF h d n l i0 i1]
  note down = normalized64_monotone[OF h d n l i1 i0]
  from up lt have a: "fl_ge (normalize_ascending64 (Int64 [30, 60]) ! 1)
             (normalize_ascending64 (Int64 [30, 60]) ! 0)"
    "fl_ge (normalize_ascending64 (Int64 [5, 15]) ! 1)
             (normalize_ascending64 (Int64 [5, 15]) ! 0)"
    by blast+
  from down lt have b: "fl_ge (normalize_descending64 (Float64 [Fin 10, Fin 2]) ! 1)
             (normalize_descending64 (Float64 [Fin 10, Fin 2]) ! 0)"
    by blast
  from h d n lt a b e show ?thesis by blast
qed

section \<open>The weighted sum in machine arithmetic\<close>

lemma rnd64_eval_frac:
  assumes "x \<noteq> 0" and "2 ^ 52 \<le> \<bar>x\<bar> * 2 ^ k" and "\<bar>x\<bar> * 2 ^ k < 2 ^ 53"
    and "k \<le> 1074" and "round_half_even (x * 2 ^ k) = m" and "\<bar>m\<bar> \<le> 2 ^ 53"
  shows "rnd64 x = Fin (of_int m / 2 ^ k)"
proof -
  have p: "(2::real) powi (- int k) = 1 / 2 ^ k"
    by (simp add: power_int_minus_divide)
  have q: "(2::real) powi (- int k + 52) = 2 ^ 52 / 2 ^ k"
    "(2::real) powi (- int k + 53) = 2 ^ 53 / 2 ^ k"
    using power_int_add[of "2::real" "- int k" 52] power_int_add[of "2::real" "- int k" 53]
    by (simp_all add: p)
  have b: "\<bar>real_of_int m\<bar> \<le> 2 ^ 53" using assms(6) by (metis of_int_abs of_int_le_iff of_int_numeral of_int_power)
  have "1 \<le> (2::real) ^ k" by simp
  then have "\<bar>real_of_int m\<bar> / 2 ^ k \<le> \<bar>real_of_int m\<bar>"
    using mult_left_mono[of 1 "2 ^ k" "\<bar>real_of_int m\<bar>"] by (simp add: divide_le_eq)
  also have "\<dots> < 2 ^ 1024" using b by (rule le_less_trans) simp
  finally have c: "\<bar>real_of_int m * 2 powi (- int k)\<bar> < 2 ^ 1024" by (simp add: p abs_mult)
  have "rnd64 x = Fin (of_int m * 2 powi (- int k))"
  proof (rule rnd64_eval[OF assms(1)])
    show "2 powi (- int k + 52) \<le> \<bar>x\<bar>" unfolding q using assms(2) by (simp add: divide_le_eq)
    show "\<bar>x\<bar> < 2 powi (- int k + 53)" unfolding q using assms(3) by (simp add: less_divide_eq)
    show "- 1074 \<le> - int k" using assms(4) by simp
    show "round_half_even (x / 2 powi (- int k)) = m" using assms(5) by (simp add: p)
    show "\<bar>real_of_int m * 2 powi (- int k)\<bar> < 2 ^ 1024" by (rule c)
  qed
  then show ?thesis by (simp add: p)
qed

lemma weights64_are_doubles:
  "rnd64 (4 / 10) = Fin (3602879701896397 / 2 ^ 53)"
  "rnd64 (3 / 10) = Fin (5404319552844595 / 2 ^ 54)"
proof -
  have "rnd64 (4 / 10) = Fin (of_int 7205759403792794 / 2 ^ 54)"
    by (rule rnd64_eval_frac) (simp_all add: round_half_even_def Let_def)
  then show "rnd64 (4 / 10) = Fin (3602879701896397 / 2 ^ 53)" by simp
  have "rnd64 (3 / 10) = Fin (of_int 5404319552844595 / 2 ^ 54)"
    by (rule rnd64_eval_frac) (simp_all add: round_half_even_def Let_def)
  then show "rnd64 (3 / 10) = Fin (5404319552844595 / 2 ^ 54)" by simp
qed

lemma weights64_top:
  "rnd64 (100 * (3602879701896397 / 2 ^ 53)) = Fin 40"
  "rnd64 (100 * (5404319552844595 / 2 ^ 54)) = Fin 30"
proof -
  have "rnd64 (100 * (3602879701896397 / 2 ^ 53)) = Fin (of_int 5629499534213120 / 2 ^ 47)"
    by (rule rnd64_eval_frac) (simp_all add: round_half_even_def Let_def)
  then show "rnd64 (100 * (3602879701896397 / 2 ^ 53)) = Fin 40" by simp
  have "rnd64 (100 * (5404319552844595 / 2 ^ 54)) = Fin (of_int 8444249301319680 / 2 ^ 48)"
    by (rule rnd64_eval_frac) (simp_all add: round_half_even_def Let_def)
  then show "rnd64 (100 * (5404319552844595 / 2 ^ 54)) = Fin 30" by simp
qed

lemma weighted64_range:
  assumes "0 \<le> x" "x \<le> 100" "0 \<le> y" "y \<le> 100" "0 \<le> z" "z \<le> 100"
  obtains r where
    "f64_add (f64_add (f64_mul (Fin x) (Fin (3602879701896397 / 2 ^ 53)))
                      (f64_mul (Fin y) (Fin (5404319552844595 / 2 ^ 54))))
             (f64_mul (Fin z) (Fin (5404319552844595 / 2 ^ 54))) = Fin r"
    and "0 \<le> r" and "r \<le> 100"
proof -
  have w: "0 \<le> (3602879701896397 / 2 ^ 53 :: real)" "0 \<le> (5404319552844595 / 2 ^ 54 :: real)"
    by simp_all
  have bx: "0 \<le> x * (3602879701896397 / 2 ^ 53)"
    "x * (3602879701896397 / 2 ^ 53) \<le> 100 * (3602879701896397 / 2 ^ 53)"
    using assms(1,2) w(1) by (simp_all only: mult_nonneg_nonneg mult_right_mono)
  have by': "0 \<le> y * (5404319552844595 / 2 ^ 54)"
    "y * (5404319552844595 / 2 ^ 54) \<le> 100 * (5404319552844595 / 2 ^ 54)"
    using assms(3,4) w(2) by (simp_all only: mult_nonneg_nonneg mult_right_mono)
  have bz: "0 \<le> z * (5404319552844595 / 2 ^ 54)"
    "z * (5404319552844595 / 2 ^ 54) \<le> 100 * (5404319552844595 / 2 ^ 54)"
    using assms(5,6) w(2) by (simp_all only: mult_nonneg_nonneg mult_right_mono)
  obtain p where p: "rnd64 (x * (3602879701896397 / 2 ^ 53)) = Fin p" "0 \<le> p" "p \<le> 40"
    using rnd64_mono_nonneg[OF bx weights64_top(1)] by blast
  obtain q where q: "rnd64 (y * (5404319552844595 / 2 ^ 54)) = Fin q" "0 \<le> q" "q \<le> 30"
    using rnd64_mono_nonneg[OF by' weights64_top(2)] by blast
  obtain s where s: "rnd64 (z * (5404319552844595 / 2 ^ 54)) = Fin s" "0 \<le> s" "s \<le> 30"
    using rnd64_mono_nonneg[OF bz weights64_top(2)] by blast
  have r70: "rnd64 70 = Fin 70" by (simp add: rnd64_numeral)
  have bt: "0 \<le> p + q" "p + q \<le> 70" using p(2,3) q(2,3) by simp_all
  obtain t where t: "rnd64 (p + q) = Fin t" "0 \<le> t" "t \<le> 70"
    using rnd64_mono_nonneg[OF bt r70] by blast
  have r100: "rnd64 100 = Fin 100" by simp
  have br: "0 \<le> t + s" "t + s \<le> 100" using t(2,3) s(2,3) by simp_all
  obtain r where r: "rnd64 (t + s) = Fin r" "0 \<le> r" "r \<le> 100"
    using rnd64_mono_nonneg[OF br r100] by blast
  have "f64_add (f64_add (f64_mul (Fin x) (Fin (3602879701896397 / 2 ^ 53)))
                      (f64_mul (Fin y) (Fin (5404319552844595 / 2 ^ 54))))
             (f64_mul (Fin z) (Fin (5404319552844595 / 2 ^ 54))) = Fin r"
    by (simp only: f64_mul.simps f64_add.simps p(1) q(1) s(1) t(1) r(1))
  then show ?thesis using that[of r] r(2,3) by blast
qed

lemma weighted_sum64_nth:
  assumes "i < length a" and "i < length b" and "i < length c"
  shows "weighted_sum64 a b c ! i =
           f64_add (f64_add (f64_mul (a ! i) (Fin (3602879701896397 / 2 ^ 53)))
                            (f64_mul (b ! i) (Fin (5404319552844595 / 2 ^ 54))))
                   (f64_mul (c ! i) (Fin (5404319552844595 / 2 ^ 54)))"
  using assms by (simp add: weighted_sum64_def weights64_def)

lemma length_weighted_sum64:
  "length (weighted_sum64 a b c) = min (length a) (min (length b) (length c))"
  by (simp add: weighted_sum64_def)

lemma weighted64_in_range:
  assumes "in_0_100 x" and "in_0_100 y" and "in_0_100 z"
  shows "in_0_100 (f64_add (f64_add (f64_mul x (Fin (3602879701896397 / 2 ^ 53)))
                                    (f64_mul y (Fin (5404319552844595 / 2 ^ 54))))
                           (f64_mul z (Fin (5404319552844595 / 2 ^ 54))))"
proof -
  obtain x' y' z' where v: "x = Fin x'" "0 \<le> x'" "x' \<le> 100" "y = Fin y'" "0 \<le> y'"
    "y' \<le> 100" "z = Fin z'" "0 \<le> z'" "z' \<le> 100"
    using assms by (auto simp: in_0_100_def split: pyfloat.splits)
  obtain r where "f64_add (f64_add (f64_mul (Fin x') (Fin (3602879701896397 / 2 ^ 53)))
                      (f64_mul (Fin y') (Fin (5404319552844595 / 2 ^ 54))))
             (f64_mul (Fin z') (Fin (5404319552844595 / 2 ^ 54))) = Fin r"
    and "0 \<le> r" and "r \<le> 100"
    using weighted64_range[OF v(2,3,5,6,8,9)] by blast
  then show ?thesis unfolding v(1,4,7) by (simp add: in_0_100_def)
qed

lemma rnd64_40_two_63:
  "rnd64 (100 * 2 ^ 63 * (3602879701896397 / 2 ^ 53)) = Fin (40 * 2 ^ 63)"
  "rnd64 (40 * 2 ^ 63) = Fin (40 * 2 ^ 63)"
proof -
  have "rnd64 (100 * 2 ^ 63 * (3602879701896397 / 2 ^ 53))
          = Fin (of_int 5629499534213120 * 2 powi 16)"
    by (rule rnd64_eval) (simp_all add: round_half_even_def Let_def)
  then show "rnd64 (100 * 2 ^ 63 * (3602879701896397 / 2 ^ 53)) = Fin (40 * 2 ^ 63)" by simp
  show "rnd64 (40 * 2 ^ 63) = Fin (40 * 2 ^ 63)" using rnd64_exact[of 66 5] by simp
qed

text \<open>
  Claim C1 says that the score of every row is in [0, 100] whenever the three raw
  columns hold finite numbers. It is not when a column has a single value: with two
  regions of the same speed 50 the normalised speed is \<open>0 / 0\<close>, NaN, and so is the score
  of both rows. It is not either when \<open>max - min\<close> overflows: with the \<open>int64\<close> speeds
  \<open>-2^63, 0, 2^63 - 1\<close> the second row has the normalised speed \<open>100 * 2^63\<close> and the
  score \<open>40 * 2^63\<close>.
\<close>

theorem traffic_score64_counterexample:
  "holds (Int64 [50, 50]) [50, 50] \<and> holds (Int64 [5, 15]) [5, 15]
   \<and> holds (Int64 [10, 2]) [10, 2]
   \<and> traffic_score64 (Int64 [50, 50]) (Int64 [5, 15]) (Int64 [10, 2]) = [NaN, NaN]
   \<and> \<not> in_0_100 NaN
   \<and> holds (Int64 [- (2 ^ 63), 0, 2 ^ 63 - 1]) [- (2 ^ 63), 0, 2 ^ 63 - 1]
   \<and> holds (Int64 [5, 5, 15]) [5, 5, 15] \<and> holds (Int64 [2, 10, 2]) [2, 10, 2]
   \<and> traffic_score64 (Int64 [- (2 ^ 63), 0, 2 ^ 63 - 1]) (Int64 [5, 5, 15]) (Int64 [2, 10, 2])
       = [Fin 30, Fin (40 * 2 ^ 63), Fin 100]
   \<and> \<not> in_0_100 (Fin (40 * 2 ^ 63))"
proof -
  have h: "holds (Int64 [50, 50]) [50, 50]" "holds (Int64 [5, 15]) [5, 15]"
    "holds (Int64 [10, 2]) [10, 2]"
    "holds (Int64 [- (2 ^ 63), 0, 2 ^ 63 - 1]) [- (2 ^ 63), 0, 2 ^ 63 - 1]"
    "holds (Int64 [5, 5, 15]) [5, 5, 15]" "holds (Int64 [2, 10, 2]) [2, 10, 2]"
    by (simp_all add: is_int64_def)
  have a: "normalize_ascending64 (Int64 [50, 50]) = [NaN, NaN]"
    "normalize_ascending64 (Int64 [5, 15]) = [Fin 0, Fin 100]"
    "normalize_descending64 (Int64 [10, 2]) = [Fin 0, Fin 100]"
    "normalize_ascending64 (Int64 [5, 5, 15]) = [Fin 0, Fin 0, Fin 100]"
    "normalize_descending64 (Int64 [2, 10, 2]) = [Fin 100, Fin 0, Fin 100]"
    by (simp_all add: eval64)
  have s1: "traffic_score64 (Int64 [50, 50]) (Int64 [5, 15]) (Int64 [10, 2]) = [NaN, NaN]"
    unfolding traffic_score64_def a by (simp add: weighted_sum64_def)
  have w: "rnd64 (100 * 3602879701896397 / 9007199254740992) = Fin 40"
    "rnd64 (100 * 5404319552844595 / 18014398509481984) = Fin 30"
    "rnd64 (100 * 9223372036854775808 * 3602879701896397 / 9007199254740992)
       = Fin (40 * 9223372036854775808)"
    "rnd64 (40 * 9223372036854775808) = Fin (40 * 9223372036854775808)"
    using weights64_top rnd64_40_two_63 by simp_all
  have s2: "traffic_score64 (Int64 [- (2 ^ 63), 0, 2 ^ 63 - 1]) (Int64 [5, 5, 15])
              (Int64 [2, 10, 2]) = [Fin 30, Fin (40 * 2 ^ 63), Fin 100]"
    unfolding traffic_score64_def a normalize64_wrap_example
    using w by (simp add: weighted_sum64_def weights64_def rnd64_numeral)
  have n: "\<not> in_0_100 NaN" "\<not> in_0_100 (Fin (40 * 2 ^ 63))" by (simp_all add: in_0_100_def)
  from h s1 s2 n show ?thesis by blast
qed

text \<open>
  Claim C1 as amended. The weight table holds the doubles nearest to 0.4, 0.3 and 0.3.
  For all numeric raw columns the score column has one value for each row, and the score
  of every row is \<open>normalised speed * 0.4 + normalised transit * 0.3 + normalised
  accidents * 0.3\<close>, computed from left to right in \<open>float64\<close> operations; it lies in
  [0, 100] whenever the three normalised values of the row do. They do, and so does the
  score of every row, when the three raw columns hold finite numbers of their dtype,
  each with max != min and with \<open>max - min\<close> computed without overflow.
\<close>

theorem traffic_score64_weighted:
  "map_option Fin (weights64 Speed) = Some (rnd64 (4 / 10))
   \<and> map_option Fin (weights64 Transit) = Some (rnd64 (3 / 10))
   \<and> map_option Fin (weights64 Accidents) = Some (rnd64 (3 / 10))
   \<and> length (traffic_score64 sp tr ac)
       = min (length (normalize_ascending64 sp))
             (min (length (normalize_ascending64 tr)) (length (normalize_descending64 ac)))
   \<and> (\<forall>i<length (traffic_score64 sp tr ac).
         traffic_score64 sp tr ac ! i
           = f64_add (f64_add (f64_mul (normalize_ascending64 sp ! i) (rnd64 (4 / 10)))
                              (f64_mul (normalize_ascending64 tr ! i) (rnd64 (3 / 10))))
                     (f64_mul (normalize_descending64 ac ! i) (rnd64 (3 / 10)))
         \<and> (in_0_100 (normalize_ascending64 sp ! i) \<and> in_0_100 (normalize_ascending64 tr ! i)
              \<and> in_0_100 (normalize_descending64 ac ! i)
            \<longrightarrow> in_0_100 (traffic_score64 sp tr ac ! i)))
   \<and> (holds sp speeds \<and> holds tr transits \<and> holds ac accidents
        \<and> length transits = length speeds \<and> length accidents = length speeds
        \<and> Max (set speeds) \<noteq> Min (set speeds) \<and> Max (set transits) \<noteq> Min (set transits)
        \<and> Max (set accidents) \<noteq> Min (set accidents)
        \<and> no_overflow sp \<and> no_overflow tr \<and> no_overflow ac
      \<longrightarrow> length (traffic_score64 sp tr ac) = length speeds
          \<and> (\<forall>i<length speeds.
                in_0_100 (normalize_ascending64 sp ! i) \<and> in_0_100 (normalize_ascending64 tr ! i)
                \<and> in_0_100 (normalize_descending64 ac ! i)
                \<and> in_0_100 (traffic_score64 sp tr ac ! i)))"
proof -
  let ?sc = "traffic_score64 sp tr ac"
  have w: "map_option Fin (weights64 Speed) = Some (rnd64 (4 / 10))"
    "map_option Fin (weights64 Transit) = Some (rnd64 (3 / 10))"
    "map_option Fin (weights64 Accidents) = Some (rnd64 (3 / 10))"
    unfolding weights64_are_doubles by (simp_all add: weights64_def)
  have len: "length ?sc = min (length (normalize_ascending64 sp))
             (min (length (normalize_ascending64 tr)) (length (normalize_descending64 ac)))"
    by (simp add: traffic_score64_def length_weighted_sum64)
  have nth: "?sc ! i
           = f64_add (f64_add (f64_mul (normalize_ascending64 sp ! i) (rnd64 (4 / 10)))
                              (f64_mul (normalize_ascending64 tr ! i) (rnd64 (3 / 10))))
                     (f64_mul (normalize_descending64 ac ! i) (rnd64 (3 / 10)))"
    if "i < length ?sc" for i
    unfolding weights64_are_doubles traffic_score64_def
    using that len by (intro weighted_sum64_nth) (simp_all add: traffic_score64_def)
  have rng: "in_0_100 (?sc ! i)"
    if "i < length ?sc" "in_0_100 (normalize_ascending64 sp ! i)"
      "in_0_100 (normalize_ascending64 tr ! i)" "in_0_100 (normalize_descending64 ac ! i)" for i
    unfolding nth[OF that(1)] weights64_are_doubles by (rule weighted64_in_range[OF that(2-4)])
  have all: "length ?sc = length speeds
          \<and> (\<forall>i<length speeds.
                in_0_100 (normalize_ascending64 sp ! i) \<and> in_0_100 (normalize_ascending64 tr ! i)
                \<and> in_0_100 (normalize_descending64 ac ! i) \<and> in_0_100 (?sc ! i))"
    if h: "holds sp speeds" "holds tr transits" "holds ac accidents"
      and l: "length transits = length speeds" "length accidents = length speeds"
      and d: "Max (set speeds) \<noteq> Min (set speeds)" "Max (set transits) \<noteq> Min (set transits)"
        "Max (set accidents) \<noteq> Min (set accidents)"
      and n: "no_overflow sp" "no_overflow tr" "no_overflow ac"
  proof -
    have ls: "length ?sc = length speeds"
      using len length_normalize64(1)[OF h(1)] length_normalize64(1)[OF h(2)]
        length_normalize64(2)[OF h(3)] l by simp
    have "in_0_100 (normalize_ascending64 sp ! i) \<and> in_0_100 (normalize_ascending64 tr ! i)
                \<and> in_0_100 (normalize_descending64 ac ! i) \<and> in_0_100 (?sc ! i)"
      if i: "i < length speeds" for i
    proof -
      have ne: "speeds \<noteq> []" "transits \<noteq> []" "accidents \<noteq> []" using i l by auto
      have lt: "Min (set speeds) < Max (set speeds)" "Min (set transits) < Max (set transits)"
        "Min (set accidents) < Max (set accidents)"
        using Min_le_Max_list[OF ne(1)] Min_le_Max_list[OF ne(2)] Min_le_Max_list[OF ne(3)] d
        by simp_all
      have ii: "i < length transits" "i < length accidents" using i l by simp_all
      have a: "in_0_100 (normalize_ascending64 sp ! i)"
        by (rule normalize64_in_range(1)[OF h(1) n(1) lt(1) i])
      have b: "in_0_100 (normalize_ascending64 tr ! i)"
        by (rule normalize64_in_range(1)[OF h(2) n(2) lt(2) ii(1)])
      have c: "in_0_100 (normalize_descending64 ac ! i)"
        by (rule normalize64_in_range(2)[OF h(3) n(3) lt(3) ii(2)])
      have "i < length ?sc" using i ls by simp
      from rng[OF this a b c] a b c show ?thesis by blast
    qed
    with ls show ?thesis by blast
  qed
  from w len nth rng all show ?thesis by blast
qed

theorem traffic_score64_weighted_witness:
  "holds (Int64 [30, 60]) [30, 60] \<and> holds (Int64 [5, 15]) [5, 15]
   \<and> holds (Float64 [Fin 10, Fin 2]) [10, 2]
   \<and> length [5, 15 :: real] = length [30, 60 :: real]
   \<and> length [10, 2 :: real] = length [30, 60 :: real]
   \<and> Max (set [30, 60 :: real]) \<noteq> Min (set [30, 60])
   \<and> Max (set [5, 15 :: real]) \<noteq> Min (set [5, 15])
   \<and> Max (set [10, 2 :: real]) \<noteq> Min (set [10, 2])
   \<and> no_overflow (Int64 [30, 60]) \<and> no_overflow (Int64 [5, 15])
   \<and> no_overflow (Float64 [Fin 10, Fin 2])
   \<and> traffic_score64 (Int64 [30, 60]) (Int64 [5, 15]) (Float64 [Fin 10, Fin 2])
       = [Fin 0, Fin 100]
   \<and> in_0_100 (normalize_ascending64 (Int64 [30, 60]) ! 1)
   \<and> in_0_100 (normalize_ascending64 (Int64 [5, 15]) ! 1)
   \<and> in_0_100 (normalize_descending64 (Float64 [Fin 10, Fin 2]) ! 1)
   \<and> in_0_100 (traffic_score64 (Int64 [30, 60]) (Int64 [5, 15]) (Float64 [Fin 10, Fin 2]) ! 1)"
proof -
  have h: "holds (Int64 [30, 60]) [30, 60]" "holds (Int64 [5, 15]) [5, 15]"
    "holds (Float64 [Fin 10, Fin 2]) [10, 2]"
    by (simp_all add: is_int64_def is_double_def rnd64_numeral)
  have l: "length [5, 15 :: real] = length [30, 60 :: real]"
    "length [10, 2 :: real] = length [30, 60 :: real]"
    by simp_all
  have d: "Max (set [30, 60 :: real]) \<noteq> Min (set [30, 60])"
    "Max (set [5, 15 :: real]) \<noteq> Min (set [5, 15])"
    "Max (set [10, 2 :: real]) \<noteq> Min (set [10, 2])"
    by simp_all
  have n: "no_overflow (Int64 [30, 60])" "no_overflow (Int64 [5, 15])"
    "no_overflow (Float64 [Fin 10, Fin 2])"
    by (simp_all add: eval64)
  have a: "normalize_ascending64 (Int64 [30, 60]) = [Fin 0, Fin 100]"
    "normalize_ascending64 (Int64 [5, 15]) = [Fin 0, Fin 100]"
    "normalize_descending64 (Float64 [Fin 10, Fin 2]) = [Fin 0, Fin 100]"
    by (simp_all add: eval64)
  have w: "rnd64 (100 * 3602879701896397 / 9007199254740992) = Fin 40"
    "rnd64 (100 * 5404319552844595 / 18014398509481984) = Fin 30"
    using weights64_top by simp_all
  have e: "traffic_score64 (Int64 [30, 60]) (Int64 [5, 15]) (Float64 [Fin 10, Fin 2])
       = [Fin 0, Fin 100]"
    unfolding traffic_score64_def a
    using w by (simp add: weighted_sum64_def weights64_def rnd64_numeral)
  have i: "1 < length [30, 60 :: real]" by simp
  note t = traffic_score64_weighted[of "Int64 [30, 60]" "Int64 [5, 15]"
      "Float64 [Fin 10, Fin 2]" "[30, 60]" "[5, 15]" "[10, 2]"]
  from t h l d n i have
    "in_0_100 (normalize_ascending64 (Int64 [30, 60]) ! 1)
     \<and> in_0_100 (normalize_ascending64 (Int64 [5, 15]) ! 1)
     \<and> in_0_100 (normalize_descending64 (Float64 [Fin 10, Fin 2]) ! 1)
     \<and> in_0_100 (traffic_score64 (Int64 [30, 60]) (Int64 [5, 15]) (Float64 [Fin 10, Fin 2]) ! 1)"
    by blast
  with h l d n e show ?thesis by blast
qed

end
